theory Spec2Isabelle
  imports Complex_Main
begin

section \<open>Real-time 2D MLS-MPM: the time step of tetris.cpp\<close>

text \<open>
  The source computes in the floating-point type \<^verbatim>\<open>real\<close> of taichi.h. The
  embedding computes in the real numbers of HOL: every statement below is about the
  arithmetic the code denotes, without rounding, overflow to infinity or NaN. The one
  exception is the base cell of a particle, which is given a second time with the rounding
  of the two floating-point operations that produce it: whether the code's grid indices
  stay inside the array is decided by that rounding.
\<close>

subsection \<open>Vectors and matrices\<close>

text \<open>
  Modelled from the spec: the vector and matrix types of taichi.h and their operators, which
  the source file includes and does not define. The spec names them 2D real-valued
  vectors, \<open>2 \<times> 2\<close> real matrices, the determinant, the transpose, the outer product and
  \<open>clamp\<close>; they are written out with that meaning. The two decompositions of taichi.h,
  \<^verbatim>\<open>polar_decomp\<close> and \<^verbatim>\<open>svd\<close>, are not written out: the step takes them as parameters.
\<close>

datatype Vec = Vec (vx: real) (vy: real)

datatype Vector2i = Vector2i (ix: int) (iy: int)

datatype Vector3 = Vector3 (g0: real) (g1: real) (g2: real)

datatype Mat = Mat (m00: real) (m01: real) (m10: real) (m11: real)

text \<open>\<^verbatim>\<open>Vec(s)\<close>: both components equal to the scalar.\<close>

definition Vec1 :: "real \<Rightarrow> Vec" where
  "Vec1 s = Vec s s"

text \<open>\<^verbatim>\<open>Mat(s)\<close>: the scalar on the diagonal, so that \<^verbatim>\<open>Mat(1)\<close> is the
  identity of \<^verbatim>\<open>Mat(1) + dt * p.C\<close> and \<^verbatim>\<open>Mat(0)\<close> is the zero matrix.\<close>

definition Mat1 :: "real \<Rightarrow> Mat" where
  "Mat1 s = Mat s 0 0 s"

definition vadd :: "Vec \<Rightarrow> Vec \<Rightarrow> Vec" where
  "vadd a b = Vec (vx a + vx b) (vy a + vy b)"

definition vsub :: "Vec \<Rightarrow> Vec \<Rightarrow> Vec" where
  "vsub a b = Vec (vx a - vx b) (vy a - vy b)"

text \<open>The product of two vectors is taken component by component.\<close>

definition vmul :: "Vec \<Rightarrow> Vec \<Rightarrow> Vec" where
  "vmul a b = Vec (vx a * vx b) (vy a * vy b)"

definition vscale :: "real \<Rightarrow> Vec \<Rightarrow> Vec" where
  "vscale s a = Vec (s * vx a) (s * vy a)"

definition sqr :: "Vec \<Rightarrow> Vec" where
  "sqr a = vmul a a"

definition vadd3 :: "Vector3 \<Rightarrow> Vector3 \<Rightarrow> Vector3" where
  "vadd3 a b = Vector3 (g0 a + g0 b) (g1 a + g1 b) (g2 a + g2 b)"

definition vscale3 :: "real \<Rightarrow> Vector3 \<Rightarrow> Vector3" where
  "vscale3 s a = Vector3 (s * g0 a) (s * g1 a) (s * g2 a)"

definition vdiv3 :: "Vector3 \<Rightarrow> real \<Rightarrow> Vector3" where
  "vdiv3 a s = Vector3 (g0 a / s) (g1 a / s) (g2 a / s)"

text \<open>\<^verbatim>\<open>Vector3(v, s)\<close> extends a 2D vector; \<^verbatim>\<open>Vec(g)\<close> keeps the first two
  components of a 3D vector.\<close>

definition Vector3_of :: "Vec \<Rightarrow> real \<Rightarrow> Vector3" where
  "Vector3_of a s = Vector3 (vx a) (vy a) s"

definition Vec_of :: "Vector3 \<Rightarrow> Vec" where
  "Vec_of a = Vec (g0 a) (g1 a)"

definition madd :: "Mat \<Rightarrow> Mat \<Rightarrow> Mat" where
  "madd a b = Mat (m00 a + m00 b) (m01 a + m01 b) (m10 a + m10 b) (m11 a + m11 b)"

definition msub :: "Mat \<Rightarrow> Mat \<Rightarrow> Mat" where
  "msub a b = Mat (m00 a - m00 b) (m01 a - m01 b) (m10 a - m10 b) (m11 a - m11 b)"

definition mscale :: "real \<Rightarrow> Mat \<Rightarrow> Mat" where
  "mscale s a = Mat (s * m00 a) (s * m01 a) (s * m10 a) (s * m11 a)"

definition mmul :: "Mat \<Rightarrow> Mat \<Rightarrow> Mat" where
  "mmul a b = Mat (m00 a * m00 b + m01 a * m10 b) (m00 a * m01 b + m01 a * m11 b)
                  (m10 a * m00 b + m11 a * m10 b) (m10 a * m01 b + m11 a * m11 b)"

definition mvmul :: "Mat \<Rightarrow> Vec \<Rightarrow> Vec" where
  "mvmul a b = Vec (m00 a * vx b + m01 a * vy b) (m10 a * vx b + m11 a * vy b)"

definition transposed :: "Mat \<Rightarrow> Mat" where
  "transposed a = Mat (m00 a) (m10 a) (m01 a) (m11 a)"

definition determinant :: "Mat \<Rightarrow> real" where
  "determinant a = m00 a * m11 a - m01 a * m10 a"

definition outer_product :: "Vec \<Rightarrow> Vec \<Rightarrow> Mat" where
  "outer_product a b = Mat (vx a * vx b) (vx a * vy b) (vy a * vx b) (vy a * vy b)"

definition clamp :: "real \<Rightarrow> real \<Rightarrow> real \<Rightarrow> real" where
  "clamp a lo hi = max lo (min hi a)"

text \<open>Modelled from the spec: \<^verbatim>\<open>cast<int>\<close> of taichi.h, which is not in the source
  file. The source's comment at its two uses and the spec both call it the element-wise
  floor. A conversion that truncates towards zero instead agrees with the floor on
  non-negative arguments, here for position components from \<open>0.5 * dx\<close> on.\<close>

definition cast_int :: "Vec \<Rightarrow> Vector2i" where
  "cast_int a = Vector2i \<lfloor>vx a\<rfloor> \<lfloor>vy a\<rfloor>"

definition cast_real :: "Vector2i \<Rightarrow> Vec" where
  "cast_real b = Vec (real_of_int (ix b)) (real_of_int (iy b))"

subsection \<open>Constants\<close>

definition n :: int where
  "n = 80"

definition dx :: real where
  "dx = 1 / real_of_int n"

definition inv_dx :: real where
  "inv_dx = 1 / dx"

definition particle_mass :: real where
  "particle_mass = 1"

definition vol :: real where
  "vol = 1"

definition hardening :: real where
  "hardening = 10"

definition E :: real where
  "E = 10000"

definition nu :: real where
  "nu = 2 / 10"

definition mu_0 :: real where
  "mu_0 = E / (2 * (1 + nu))"

definition lambda_0 :: real where
  "lambda_0 = E * nu / ((1 + nu) * (1 - 2 * nu))"

subsection \<open>Particles and the grid\<close>

text \<open>The fields of \<^verbatim>\<open>struct Particle\<close>, prefixed with \<open>p_\<close>. The colour and the
  material type are C++ \<^verbatim>\<open>int\<close>s that the step only compares.\<close>

record Particle =
  p_x :: Vec
  p_v :: Vec
  p_F :: Mat
  p_C :: Mat
  p_Jp :: real
  p_c :: int
  p_type :: int

text \<open>The constructor: \<^verbatim>\<open>F(1), C(0), Jp(1)\<close>.\<close>

definition new_Particle :: "Vec \<Rightarrow> int \<Rightarrow> int \<Rightarrow> Vec \<Rightarrow> Particle" where
  "new_Particle x c ty v =
     \<lparr>p_x = x, p_v = v, p_F = Mat1 1, p_C = Mat1 0, p_Jp = 1, p_c = c, p_type = ty\<rparr>"

text \<open>
  \<^verbatim>\<open>Vector3 grid[n + 1][n + 1]\<close> is a store from index pairs to nodes. C++ gives no
  meaning to an access outside the array, and the source does not check its indices: the
  model checks each access and stops with \<open>OutOfBounds\<close>.
\<close>

type_synonym Grid = "int \<times> int \<Rightarrow> Vector3"

datatype error = OutOfBounds

definition in_grid :: "int \<Rightarrow> int \<Rightarrow> bool" where
  "in_grid i j = (0 \<le> i \<and> i \<le> n \<and> 0 \<le> j \<and> j \<le> n)"

definition grid_at :: "Grid \<Rightarrow> int \<Rightarrow> int \<Rightarrow> error + Vector3" where
  "grid_at g i j = (if in_grid i j then Inr (g (i, j)) else Inl OutOfBounds)"

definition grid_add :: "Grid \<Rightarrow> int \<Rightarrow> int \<Rightarrow> Vector3 \<Rightarrow> error + Grid" where
  "grid_add g i j a =
     (if in_grid i j then Inr (g((i, j) := vadd3 (g (i, j)) a)) else Inl OutOfBounds)"

text \<open>\<^verbatim>\<open>memset(grid, 0, sizeof(grid))\<close>.\<close>

definition zero_grid :: Grid where
  "zero_grid = (\<lambda>ij. Vector3 0 0 0)"

text \<open>The global state: the particle vector and the grid array.\<close>

record sim =
  particles :: "Particle list"
  grid :: Grid

subsection \<open>Loops that stop at the first error\<close>

fun foldE :: "('a \<Rightarrow> 's \<Rightarrow> error + 's) \<Rightarrow> 'a list \<Rightarrow> 's \<Rightarrow> error + 's" where
  "foldE f [] s = Inr s"
| "foldE f (a # as) s = (case f a s of Inl e \<Rightarrow> Inl e | Inr s' \<Rightarrow> foldE f as s')"

fun mapE :: "('a \<Rightarrow> error + 'b) \<Rightarrow> 'a list \<Rightarrow> error + 'b list" where
  "mapE f [] = Inr []"
| "mapE f (a # as) =
     (case f a of Inl e \<Rightarrow> Inl e
      | Inr b \<Rightarrow> (case mapE f as of Inl e \<Rightarrow> Inl e | Inr bs \<Rightarrow> Inr (b # bs)))"

text \<open>The nine offsets \<open>(i, j)\<close> in the order of the two nested \<^verbatim>\<open>for\<close> loops.\<close>

definition offsets :: "(int \<times> int) list" where
  "offsets = [(0, 0), (0, 1), (0, 2), (1, 0), (1, 1), (1, 2), (2, 0), (2, 1), (2, 2)]"

subsection \<open>Particle to grid (lines 27 to 51)\<close>

text \<open>Lines 28 to 33: base cell, fractional offset and the quadratic kernel.\<close>

definition p2g_base_coord :: "Particle \<Rightarrow> Vector2i" where
  "p2g_base_coord p = cast_int (vsub (vscale inv_dx (p_x p)) (Vec1 0.5))"

definition p2g_fx :: "Particle \<Rightarrow> Vec" where
  "p2g_fx p = vsub (vscale inv_dx (p_x p)) (cast_real (p2g_base_coord p))"

definition p2g_w :: "Particle \<Rightarrow> Vec list" where
  "p2g_w p =
     (let fx = p2g_fx p
      in [vmul (Vec1 0.5) (sqr (vsub (Vec1 1.5) fx)),
          vsub (Vec1 0.75) (sqr (vsub fx (Vec1 1.0))),
          vmul (Vec1 0.5) (sqr (vsub fx (Vec1 0.5)))])"

text \<open>Lines 34 to 42. \<open>polar_decomp\<close> is the routine of taichi.h, taken as a parameter:
  it returns the pair \<open>(r, s)\<close>. The scalar \<^verbatim>\<open>lambda * (J - 1) * J\<close> is added to a matrix
  as a multiple of the identity, as the spec writes the stress:
  \<open>2 * mu * (F - R) * F\<^sup>T + lambda * (J - 1) * J * I\<close>.\<close>

definition p2g_affine :: "(Mat \<Rightarrow> Mat \<times> Mat) \<Rightarrow> real \<Rightarrow> Particle \<Rightarrow> Mat" where
  "p2g_affine polar_decomp dt p =
     (let e = exp (hardening * (1.0 - p_Jp p));
          mu = mu_0 * e;
          lambda = lambda_0 * e;
          J = determinant (p_F p);
          r = fst (polar_decomp (p_F p));
          stress = mscale (- 4 * inv_dx * inv_dx * dt * vol)
                     (madd (mmul (mscale (2 * mu) (msub (p_F p) r)) (transposed (p_F p)))
                           (Mat1 (lambda * (J - 1) * J)))
      in madd stress (mscale particle_mass (p_C p)))"

text \<open>Lines 45 to 49: what one node of the stencil receives.\<close>

definition p2g_contribution :: "Mat \<Rightarrow> Particle \<Rightarrow> int \<times> int \<Rightarrow> Vector3" where
  "p2g_contribution affine p ij =
     (let i = fst ij; j = snd ij;
          fx = p2g_fx p;
          w = p2g_w p;
          dpos = vscale dx (vsub (Vec (real_of_int i) (real_of_int j)) fx);
          mv = Vector3_of (vscale particle_mass (p_v p)) particle_mass
      in vscale3 (vx (w ! nat i) * vy (w ! nat j))
           (vadd3 mv (Vector3_of (mvmul affine dpos) 0)))"

definition p2g_scatter :: "Mat \<Rightarrow> Particle \<Rightarrow> int \<times> int \<Rightarrow> Grid \<Rightarrow> error + Grid" where
  "p2g_scatter affine p ij g =
     grid_add g (ix (p2g_base_coord p) + fst ij) (iy (p2g_base_coord p) + snd ij)
       (p2g_contribution affine p ij)"

definition p2g_particle :: "(Mat \<Rightarrow> Mat \<times> Mat) \<Rightarrow> real \<Rightarrow> Particle \<Rightarrow> Grid \<Rightarrow> error + Grid" where
  "p2g_particle polar_decomp dt p g =
     foldE (p2g_scatter (p2g_affine polar_decomp dt p) p) offsets g"

definition p2g :: "(Mat \<Rightarrow> Mat \<times> Mat) \<Rightarrow> real \<Rightarrow> Particle list \<Rightarrow> Grid \<Rightarrow> error + Grid" where
  "p2g polar_decomp dt ps g = foldE (p2g_particle polar_decomp dt) ps g"

subsection \<open>Grid solve (lines 52 to 65)\<close>

definition node_solve :: "real \<Rightarrow> int \<Rightarrow> int \<Rightarrow> Vector3 \<Rightarrow> Vector3" where
  "node_solve dt i j g =
     (if g2 g > 0 then
        (let ga = vdiv3 g (g2 g);
             gb = vadd3 ga (vscale3 dt (Vector3 0 (- 200) 0));
             boundary = 0.05;
             x = real_of_int i / real_of_int n;
             y = real_of_int j / real_of_int n;
             gc = (if x < boundary \<or> x > 1 - boundary \<or> y > 1 - boundary
                   then Vector3 0 0 0 else gb)
         in (if y < boundary then Vector3 (g0 gc) (max 0.0 (g1 gc)) (g2 gc) else gc))
      else g)"

definition grid_solve :: "real \<Rightarrow> Grid \<Rightarrow> Grid" where
  "grid_solve dt g =
     fold (\<lambda>i ga. fold (\<lambda>j gb. gb((i, j) := node_solve dt i j (gb (i, j)))) [0..n] ga)
       [0..n] g"

subsection \<open>Grid to particle (lines 66 to 98)\<close>

definition g2p_base_coord :: "Particle \<Rightarrow> Vector2i" where
  "g2p_base_coord p = cast_int (vsub (vscale inv_dx (p_x p)) (Vec1 0.5))"

definition g2p_fx :: "Particle \<Rightarrow> Vec" where
  "g2p_fx p = vsub (vscale inv_dx (p_x p)) (cast_real (g2p_base_coord p))"

definition g2p_w :: "Particle \<Rightarrow> Vec list" where
  "g2p_w p =
     (let fx = g2p_fx p
      in [vmul (Vec1 0.5) (sqr (vsub (Vec1 1.5) fx)),
          vsub (Vec1 0.75) (sqr (vsub fx (Vec1 1.0))),
          vmul (Vec1 0.5) (sqr (vsub fx (Vec1 0.5)))])"

text \<open>Lines 76 to 81: one node of the stencil, added to the running \<open>(p.v, p.C)\<close>.\<close>

definition g2p_gather :: "Grid \<Rightarrow> Particle \<Rightarrow> int \<times> int \<Rightarrow> Vec \<times> Mat \<Rightarrow> error + Vec \<times> Mat" where
  "g2p_gather g p ij acc =
     (let i = fst ij; j = snd ij;
          fx = g2p_fx p;
          w = g2p_w p;
          dpos = vsub (Vec (real_of_int i) (real_of_int j)) fx
      in (case grid_at g (ix (g2p_base_coord p) + i) (iy (g2p_base_coord p) + j) of
            Inl e \<Rightarrow> Inl e
          | Inr node \<Rightarrow>
              (let grid_v = Vec_of node;
                   weight = vx (w ! nat i) * vy (w ! nat j)
               in Inr (vadd (fst acc) (vscale weight grid_v),
                       madd (snd acc)
                         (mscale (4 * inv_dx) (outer_product (vscale weight grid_v) dpos))))))"

text \<open>Lines 84 to 97: the update of \<open>F\<close> and \<open>Jp\<close>, for a particle whose \<open>C\<close> is already
  the new one. \<open>svd\<close> is the routine of taichi.h, taken as a parameter: it returns
  \<open>(svd_u, sig, svd_v)\<close>. The bounds \<^verbatim>\<open>2.5e-2\<close> and \<^verbatim>\<open>7.5e-3\<close> are written
  \<open>0.025\<close> and \<open>0.0075\<close>.\<close>

definition g2p_deform :: "(Mat \<Rightarrow> Mat \<times> Mat \<times> Mat) \<Rightarrow> real \<Rightarrow> Particle \<Rightarrow> Particle" where
  "g2p_deform svd dt p =
     (if p_type p \<le> 1 then
        (let F = mmul (madd (Mat1 1) (mscale dt (p_C p))) (p_F p)
         in (if p_type p = 1 then
               (let svd_u = fst (svd F);
                    sig0 = fst (snd (svd F));
                    svd_v = snd (snd (svd F));
                    sig = Mat (clamp (m00 sig0) (1.0 - 0.025) (1.0 + 0.0075)) (m01 sig0)
                              (m10 sig0) (clamp (m11 sig0) (1.0 - 0.025) (1.0 + 0.0075));
                    oldJ = determinant F;
                    Fa = mmul (mmul svd_u sig) (transposed svd_v);
                    Jp_new = clamp (p_Jp p * oldJ / determinant Fa) 0.6 20.0
                in p\<lparr>p_Jp := Jp_new, p_F := Fa\<rparr>)
             else p\<lparr>p_F := F\<rparr>))
      else p)"

definition g2p_particle :: "(Mat \<Rightarrow> Mat \<times> Mat \<times> Mat) \<Rightarrow> real \<Rightarrow> Grid \<Rightarrow> Particle \<Rightarrow> error + Particle" where
  "g2p_particle svd dt g p =
     (case foldE (g2p_gather g p) offsets (Vec1 0, Mat1 0) of
        Inl e \<Rightarrow> Inl e
      | Inr acc \<Rightarrow>
          (let pa = p\<lparr>p_C := snd acc, p_v := fst acc\<rparr>;
               pb = pa\<lparr>p_x := vadd (p_x pa) (vscale dt (p_v pa))\<rparr>
           in Inr (g2p_deform svd dt pb)))"

definition g2p :: "(Mat \<Rightarrow> Mat \<times> Mat \<times> Mat) \<Rightarrow> real \<Rightarrow> Grid \<Rightarrow> Particle list \<Rightarrow> error + Particle list" where
  "g2p svd dt g ps = mapE (g2p_particle svd dt g) ps"

subsection \<open>The step and its iteration\<close>

definition advance ::
  "(Mat \<Rightarrow> Mat \<times> Mat) \<Rightarrow> (Mat \<Rightarrow> Mat \<times> Mat \<times> Mat) \<Rightarrow> real \<Rightarrow> sim \<Rightarrow> error + sim" where
  "advance polar_decomp svd dt s =
     (case p2g polar_decomp dt (particles s) zero_grid of
        Inl e \<Rightarrow> Inl e
      | Inr ga \<Rightarrow>
          (let gb = grid_solve dt ga
           in (case g2p svd dt gb (particles s) of
                 Inl e \<Rightarrow> Inl e
               | Inr ps \<Rightarrow> Inr \<lparr>particles = ps, grid = gb\<rparr>)))"

text \<open>The main loop calls \<^verbatim>\<open>advance(dt)\<close> again and again; \<open>steps k\<close> is \<open>k\<close> calls.\<close>

fun steps ::
  "nat \<Rightarrow> (Mat \<Rightarrow> Mat \<times> Mat) \<Rightarrow> (Mat \<Rightarrow> Mat \<times> Mat \<times> Mat) \<Rightarrow> real \<Rightarrow> sim \<Rightarrow> error + sim" where
  "steps 0 polar_decomp svd dt s = Inr s"
| "steps (Suc k) polar_decomp svd dt s =
     (case advance polar_decomp svd dt s of
        Inl e \<Rightarrow> Inl e
      | Inr s' \<Rightarrow> steps k polar_decomp svd dt s')"

subsection \<open>The base cell in rounded arithmetic (lines 5, 28 to 29 and 67 to 68)\<close>

text \<open>
  Modelled from the spec: the type \<^verbatim>\<open>real\<close> of taichi.h, which the source file does not
  define. It is taken as single precision, the format of the \<^verbatim>\<open>_f\<close> literals: IEEE 754
  binary32 with 24 significant bits, smallest normal exponent \<open>-126\<close> and rounding to the
  nearest value, ties to the even significand. \<open>fl32 y\<close> is the value an operation with exact
  result \<open>y\<close> returns; overflow to infinity is left out, which no value below reaches.
\<close>

definition round_even :: "real \<Rightarrow> int" where
  "round_even r =
     (let f = \<lfloor>r\<rfloor>
      in if r - real_of_int f < 1 / 2 then f
         else if 1 / 2 < r - real_of_int f then f + 1
         else if even f then f else f + 1)"

definition exponent32 :: "real \<Rightarrow> int" where
  "exponent32 y = max (- 126) \<lfloor>log 2 \<bar>y\<bar>\<rfloor>"

definition ulp32 :: "real \<Rightarrow> real" where
  "ulp32 y = 2 powr real_of_int (exponent32 y - 23)"

definition fl32 :: "real \<Rightarrow> real" where
  "fl32 y = (if y = 0 then 0 else real_of_int (round_even (y / ulp32 y)) * ulp32 y)"

text \<open>Line 5: \<^verbatim>\<open>dx = 1.0_f / n\<close> and \<^verbatim>\<open>inv_dx = 1.0_f / dx\<close>, each division rounded.\<close>

definition dx_f32 :: real where
  "dx_f32 = fl32 (1.0 / real_of_int n)"

definition inv_dx_f32 :: real where
  "inv_dx_f32 = fl32 (1.0 / dx_f32)"

text \<open>The product of a vector with a scalar and the difference of two vectors, each
  component rounded.\<close>

definition vscale_f32 :: "real \<Rightarrow> Vec \<Rightarrow> Vec" where
  "vscale_f32 s a = Vec (fl32 (s * vx a)) (fl32 (s * vy a))"

definition vsub_f32 :: "Vec \<Rightarrow> Vec \<Rightarrow> Vec" where
  "vsub_f32 a b = Vec (fl32 (vx a - vx b)) (fl32 (vy a - vy b))"

text \<open>Lines 28 and 29: \<^verbatim>\<open>(p.x * inv_dx - Vec(0.5_f)).cast<int>()\<close>, the value handed to
  the cast and the base cell.\<close>

definition p2g_cast_arg_f32 :: "Particle \<Rightarrow> Vec" where
  "p2g_cast_arg_f32 p = vsub_f32 (vscale_f32 inv_dx_f32 (p_x p)) (Vec1 0.5)"

definition p2g_base_coord_f32 :: "Particle \<Rightarrow> Vector2i" where
  "p2g_base_coord_f32 p = cast_int (p2g_cast_arg_f32 p)"

text \<open>Lines 67 and 68: the same expression in the second transfer.\<close>

definition g2p_cast_arg_f32 :: "Particle \<Rightarrow> Vec" where
  "g2p_cast_arg_f32 p = vsub_f32 (vscale_f32 inv_dx_f32 (p_x p)) (Vec1 0.5)"

definition g2p_base_coord_f32 :: "Particle \<Rightarrow> Vector2i" where
  "g2p_base_coord_f32 p = cast_int (g2p_cast_arg_f32 p)"

subsection \<open>Notions used in the statements\<close>

text \<open>The nine accesses of a particle with base cell \<open>b\<close> stay inside the array.\<close>

definition stencil_ok :: "Vector2i \<Rightarrow> bool" where
  "stencil_ok b = (0 \<le> ix b \<and> ix b + 2 \<le> n \<and> 0 \<le> iy b \<and> iy b + 2 \<le> n)"

text \<open>The nine nodes a particle with base cell \<open>b\<close> touches.\<close>

definition stencil :: "Vector2i \<Rightarrow> (int \<times> int) list" where
  "stencil b = map (\<lambda>ij. (ix b + fst ij, iy b + snd ij)) offsets"

text \<open>The weight \<^verbatim>\<open>w[i].x * w[j].y\<close> of line 78, and the body of the gather loop
  once the index check has passed.\<close>

definition g2p_weight :: "Particle \<Rightarrow> int \<times> int \<Rightarrow> real" where
  "g2p_weight p ij = vx (g2p_w p ! nat (fst ij)) * vy (g2p_w p ! nat (snd ij))"

definition gather_step :: "Grid \<Rightarrow> Particle \<Rightarrow> int \<times> int \<Rightarrow> Vec \<times> Mat \<Rightarrow> Vec \<times> Mat" where
  "gather_step g p ij acc =
     (let node = g (ix (g2p_base_coord p) + fst ij, iy (g2p_base_coord p) + snd ij);
          dpos = vsub (Vec (real_of_int (fst ij)) (real_of_int (snd ij))) (g2p_fx p)
      in (vadd (fst acc) (vscale (g2p_weight p ij) (Vec_of node)),
          madd (snd acc) (mscale (4 * inv_dx)
            (outer_product (vscale (g2p_weight p ij) (Vec_of node)) dpos))))"

text \<open>The kernel weight of line \<open>i\<close> of the stencil for a particle whose fractional offset
  is 1, as it is at the centre of the domain.\<close>

definition mid_w1 :: "int \<Rightarrow> real" where
  "mid_w1 i = (if i = 1 then 3 / 4 else 1 / 8)"

text \<open>
  The contract of \<open>svd\<close>: orthogonal factors and a diagonal middle factor. The singular
  values of a matrix \<open>M\<close> are the non-negative roots \<open>sv\<close> of
  \<open>det (M\<^sup>T M - sv\<^sup>2 I) = 0\<close>.
\<close>

definition orthogonal :: "Mat \<Rightarrow> bool" where
  "orthogonal M = (mmul (transposed M) M = Mat1 1 \<and> mmul M (transposed M) = Mat1 1)"

definition is_singular_value :: "Mat \<Rightarrow> real \<Rightarrow> bool" where
  "is_singular_value M sv =
     (0 \<le> sv \<and> determinant (msub (mmul (transposed M) M) (Mat1 (sv * sv))) = 0)"

definition svd_ok :: "(Mat \<Rightarrow> Mat \<times> Mat \<times> Mat) \<Rightarrow> bool" where
  "svd_ok svd = (\<forall>M. orthogonal (fst (svd M)) \<and> orthogonal (snd (snd (svd M))) \<and>
                     m01 (fst (snd (svd M))) = 0 \<and> m10 (fst (snd (svd M))) = 0)"

text \<open>
  For the containment of the particles: a grid whose masses are non-negative and whose
  massless nodes carry no momentum; a position whose stencil stays inside the array; a
  solved grid whose velocities move nothing further than \<open>0.025\<close>, half the boundary
  thickness, in one step; the wall conditions of lines 60 to 63 read off the solved grid
  (nodes \<open>0..3\<close> and \<open>77..80\<close> are those with \<open>i / n < 0.05\<close> and \<open>i / n > 0.95\<close>); and a
  run whose solved grids are all slow.
\<close>

definition mass_ok :: "Grid \<Rightarrow> bool" where
  "mass_ok g = (\<forall>ab. 0 \<le> g2 (g ab) \<and> (g2 (g ab) = 0 \<longrightarrow> g0 (g ab) = 0 \<and> g1 (g ab) = 0))"

definition inside :: "Particle \<Rightarrow> bool" where
  "inside p = (0.5 * dx \<le> vx (p_x p) \<and> vx (p_x p) < (real_of_int n - 0.5) * dx \<and>
               0.5 * dx \<le> vy (p_x p) \<and> vy (p_x p) < (real_of_int n - 0.5) * dx)"

definition slow_grid :: "real \<Rightarrow> Grid \<Rightarrow> bool" where
  "slow_grid dt g = (\<forall>i j. in_grid i j \<longrightarrow>
      \<bar>dt * g0 (g (i, j))\<bar> \<le> 0.025 \<and> \<bar>dt * g1 (g (i, j))\<bar> \<le> 0.025)"

definition walls :: "Grid \<Rightarrow> bool" where
  "walls g = (\<forall>i j. in_grid i j \<longrightarrow>
      (i \<le> 3 \<or> 77 \<le> i \<or> 77 \<le> j \<longrightarrow> g0 (g (i, j)) = 0 \<and> g1 (g (i, j)) = 0) \<and>
      (j \<le> 3 \<longrightarrow> 0 \<le> g1 (g (i, j))))"

fun slow_run ::
  "nat \<Rightarrow> (Mat \<Rightarrow> Mat \<times> Mat) \<Rightarrow> (Mat \<Rightarrow> Mat \<times> Mat \<times> Mat) \<Rightarrow> real \<Rightarrow> sim \<Rightarrow> bool" where
  "slow_run 0 polar_decomp svd dt s = True"
| "slow_run (Suc k) polar_decomp svd dt s =
     (case advance polar_decomp svd dt s of
        Inl e \<Rightarrow> True
      | Inr s' \<Rightarrow> slow_grid dt (grid s') \<and> slow_run k polar_decomp svd dt s')"

section \<open>Basic facts\<close>

lemma inv_dx_eq: "inv_dx = 80"
  by (simp add: inv_dx_def dx_def n_def)

lemma dx_eq: "dx = 1 / 80"
  by (simp add: dx_def n_def)

lemma set_offsets: "set offsets = {0, 1, 2} \<times> {0, 1, 2}"
  by (auto simp: offsets_def)

lemma distinct_offsets: "distinct offsets"
  by (simp add: offsets_def)

lemma in_stencil_iff:
  "(a, b) \<in> set (stencil c) \<longleftrightarrow> (a - ix c, b - iy c) \<in> set offsets"
proof -
  have "(a, b) \<in> set (stencil c) \<longleftrightarrow> (\<exists>ij \<in> set offsets. a = ix c + fst ij \<and> b = iy c + snd ij)"
    by (auto simp: stencil_def)
  also have "\<dots> \<longleftrightarrow> (a - ix c, b - iy c) \<in> set offsets"
  proof
    assume "\<exists>ij \<in> set offsets. a = ix c + fst ij \<and> b = iy c + snd ij"
    then obtain ij where "ij \<in> set offsets" "a = ix c + fst ij" "b = iy c + snd ij" by blast
    then show "(a - ix c, b - iy c) \<in> set offsets" by simp
  next
    assume "(a - ix c, b - iy c) \<in> set offsets"
    then show "\<exists>ij \<in> set offsets. a = ix c + fst ij \<and> b = iy c + snd ij"
      by (intro bexI[where x="(a - ix c, b - iy c)"]) simp_all
  qed
  finally show ?thesis .
qed

lemma offsets_in_grid:
  "(\<forall>ij \<in> set offsets. in_grid (ix b + fst ij) (iy b + snd ij)) \<longleftrightarrow> stencil_ok b"
  unfolding offsets_def in_grid_def stencil_ok_def
  by (simp) linarith

lemma foldE_scatter:
  "distinct ijs \<Longrightarrow>
   foldE (p2g_scatter A p) ijs g =
     (if \<forall>ij \<in> set ijs. in_grid (ix (p2g_base_coord p) + fst ij) (iy (p2g_base_coord p) + snd ij)
      then Inr (\<lambda>ab. if (fst ab - ix (p2g_base_coord p), snd ab - iy (p2g_base_coord p)) \<in> set ijs
                      then vadd3 (g ab) (p2g_contribution A p
                             (fst ab - ix (p2g_base_coord p), snd ab - iy (p2g_base_coord p)))
                      else g ab)
      else Inl OutOfBounds)"
proof (induction ijs arbitrary: g)
  case Nil
  then show ?case by simp
next
  case (Cons ij ijs)
  obtain i j where ij: "ij = (i, j)" by (cases ij)
  show ?case
  proof (cases "in_grid (ix (p2g_base_coord p) + i) (iy (p2g_base_coord p) + j)")
    case False
    then have "p2g_scatter A p (i, j) g = Inl OutOfBounds"
      by (simp add: p2g_scatter_def grid_add_def)
    then have "foldE (p2g_scatter A p) (ij # ijs) g = Inl OutOfBounds"
      by (simp only: ij foldE.simps sum.case)
    moreover have "\<not> (\<forall>ij \<in> set (ij # ijs).
        in_grid (ix (p2g_base_coord p) + fst ij) (iy (p2g_base_coord p) + snd ij))"
      using False by (simp add: ij)
    ultimately show ?thesis by (simp only: if_False)
  next
    case True
    have d: "distinct ijs" "(i, j) \<notin> set ijs" using Cons.prems ij by auto
    let ?cx = "ix (p2g_base_coord p)" and ?cy = "iy (p2g_base_coord p)"
    let ?g = "g((?cx + i, ?cy + j) := vadd3 (g (?cx + i, ?cy + j)) (p2g_contribution A p (i, j)))"
    have step: "p2g_scatter A p (i, j) g = Inr ?g"
      using True by (simp add: p2g_scatter_def grid_add_def)
    have "foldE (p2g_scatter A p) (ij # ijs) g = foldE (p2g_scatter A p) ijs ?g"
      unfolding ij by (subst foldE.simps(2), subst step, simp only: sum.case)
    also have "\<dots> = (if \<forall>ij \<in> set ijs. in_grid (?cx + fst ij) (?cy + snd ij)
      then Inr (\<lambda>ab. if (fst ab - ?cx, snd ab - ?cy) \<in> set ijs
                      then vadd3 (?g ab) (p2g_contribution A p (fst ab - ?cx, snd ab - ?cy))
                      else ?g ab)
      else Inl OutOfBounds)"
      by (rule Cons.IH[OF d(1)])
    also have "\<dots> = (if \<forall>ij \<in> set (ij # ijs). in_grid (?cx + fst ij) (?cy + snd ij)
      then Inr (\<lambda>ab. if (fst ab - ?cx, snd ab - ?cy) \<in> set (ij # ijs)
                      then vadd3 (g ab) (p2g_contribution A p (fst ab - ?cx, snd ab - ?cy))
                      else g ab)
      else Inl OutOfBounds)"
    proof -
      have c: "(\<forall>ij \<in> set (ij # ijs). in_grid (?cx + fst ij) (?cy + snd ij)) \<longleftrightarrow>
               (\<forall>ij \<in> set ijs. in_grid (?cx + fst ij) (?cy + snd ij))"
        using True by (simp add: ij)
      have f: "(\<lambda>ab. if (fst ab - ?cx, snd ab - ?cy) \<in> set ijs
                      then vadd3 (?g ab) (p2g_contribution A p (fst ab - ?cx, snd ab - ?cy))
                      else ?g ab) =
               (\<lambda>ab. if (fst ab - ?cx, snd ab - ?cy) \<in> set (ij # ijs)
                      then vadd3 (g ab) (p2g_contribution A p (fst ab - ?cx, snd ab - ?cy))
                      else g ab)"
      proof (rule ext)
        fix ab :: "int \<times> int"
        obtain a b where ab: "ab = (a, b)" by (cases ab)
        show "(if (fst ab - ?cx, snd ab - ?cy) \<in> set ijs
                      then vadd3 (?g ab) (p2g_contribution A p (fst ab - ?cx, snd ab - ?cy))
                      else ?g ab) =
              (if (fst ab - ?cx, snd ab - ?cy) \<in> set (ij # ijs)
                      then vadd3 (g ab) (p2g_contribution A p (fst ab - ?cx, snd ab - ?cy))
                      else g ab)"
        proof (cases "a = ?cx + i \<and> b = ?cy + j")
          case True
          then have "(fst ab - ?cx, snd ab - ?cy) = (i, j)" by (simp add: ab)
          then show ?thesis using d(2) True by (simp add: ab ij)
        next
          case False
          then have ne: "(a - ?cx, b - ?cy) \<noteq> (i, j)" "(a, b) \<noteq> (?cx + i, ?cy + j)"
            by auto
          show ?thesis
            unfolding ab ij fst_conv snd_conv set_simps insert_iff fun_upd_apply
            by (simp only: ne if_False simp_thms)
        qed
      qed
      show ?thesis unfolding c f ..
    qed
    finally show ?thesis .
  qed
qed

lemma in_stencil_iff2:
  "ab \<in> set (stencil c) \<longleftrightarrow> (fst ab - ix c, snd ab - iy c) \<in> set offsets"
  by (cases ab) (simp only: in_stencil_iff fst_conv snd_conv)

lemma p2g_particle_eq:
  "p2g_particle pd dt p g =
     (if stencil_ok (p2g_base_coord p)
      then Inr (\<lambda>ab. if ab \<in> set (stencil (p2g_base_coord p))
                      then vadd3 (g ab) (p2g_contribution (p2g_affine pd dt p) p
                             (fst ab - ix (p2g_base_coord p), snd ab - iy (p2g_base_coord p)))
                      else g ab)
      else Inl OutOfBounds)"
  by (simp only: p2g_particle_def foldE_scatter[OF distinct_offsets] offsets_in_grid
        in_stencil_iff2)


lemma upto_fold_inner:
  "distinct js \<Longrightarrow> fold (\<lambda>j gb. gb((i, j) := f i j (gb (i, j)))) js g (a, b) =
     (if a = i \<and> b \<in> set js then f i b (g (a, b)) else g (a, b))"
  by (induction js arbitrary: g) auto

lemma upto_fold_outer:
  "distinct is \<Longrightarrow> distinct js \<Longrightarrow>
   fold (\<lambda>i ga. fold (\<lambda>j gb. gb((i, j) := f i j (gb (i, j)))) js ga) is g (a, b) =
     (if a \<in> set is \<and> b \<in> set js then f a b (g (a, b)) else g (a, b))"
  by (induction "is" arbitrary: g) (auto simp: upto_fold_inner)

lemma grid_solve_apply:
  "grid_solve dt g (i, j) = (if in_grid i j then node_solve dt i j (g (i, j)) else g (i, j))"
  unfolding grid_solve_def in_grid_def
  by (subst upto_fold_outer) auto


lemma g2p_gather_eq:
  "g2p_gather g p ij acc =
     (if in_grid (ix (g2p_base_coord p) + fst ij) (iy (g2p_base_coord p) + snd ij)
      then Inr (gather_step g p ij acc) else Inl OutOfBounds)"
  by (simp add: g2p_gather_def gather_step_def grid_at_def g2p_weight_def Let_def)

lemma foldE_gather:
  "foldE (g2p_gather g p) ijs acc =
     (if \<forall>ij \<in> set ijs. in_grid (ix (g2p_base_coord p) + fst ij) (iy (g2p_base_coord p) + snd ij)
      then Inr (fold (gather_step g p) ijs acc) else Inl OutOfBounds)"
proof (induction ijs arbitrary: acc)
  case Nil
  show ?case by simp
next
  case (Cons ij ijs)
  show ?case
  proof (cases "in_grid (ix (g2p_base_coord p) + fst ij) (iy (g2p_base_coord p) + snd ij)")
    case True
    then have "foldE (g2p_gather g p) (ij # ijs) acc =
               foldE (g2p_gather g p) ijs (gather_step g p ij acc)"
      by (subst foldE.simps(2), subst g2p_gather_eq) simp
    then show ?thesis using True by (simp add: Cons.IH)
  next
    case False
    then have "foldE (g2p_gather g p) (ij # ijs) acc = Inl OutOfBounds"
      by (subst foldE.simps(2), subst g2p_gather_eq) simp
    then show ?thesis using False by simp
  qed
qed

lemma g2p_particle_eq:
  "g2p_particle svd dt g p =
     (if stencil_ok (g2p_base_coord p)
      then (let acc = fold (gather_step g p) offsets (Vec1 0, Mat1 0);
                pa = p\<lparr>p_C := snd acc, p_v := fst acc\<rparr>;
                pb = pa\<lparr>p_x := vadd (p_x pa) (vscale dt (p_v pa))\<rparr>
            in Inr (g2p_deform svd dt pb))
      else Inl OutOfBounds)"
  unfolding g2p_particle_def foldE_gather offsets_in_grid
  by (simp add: Let_def)

lemma g2p_deform_frame:
  "p_type (g2p_deform svd dt p) = p_type p"
  "p_c (g2p_deform svd dt p) = p_c p"
  "p_x (g2p_deform svd dt p) = p_x p"
  "p_v (g2p_deform svd dt p) = p_v p"
  "p_C (g2p_deform svd dt p) = p_C p"
  by (simp_all add: g2p_deform_def Let_def)

lemma g2p_deform_liquid:
  "p_type p = 2 \<Longrightarrow> g2p_deform svd dt p = p"
  by (simp add: g2p_deform_def)

lemma g2p_particle_frame:
  assumes "g2p_particle svd dt g p = Inr p'"
  shows "p_type p' = p_type p" and "p_c p' = p_c p"
    and "p_type p = 2 \<Longrightarrow> p_F p' = p_F p"
  using assms
  by (auto simp: g2p_particle_eq Let_def g2p_deform_frame g2p_deform_liquid split: if_splits)

lemma mapE_Inr:
  "mapE f xs = Inr ys \<Longrightarrow> length ys = length xs \<and> (\<forall>i < length xs. f (xs ! i) = Inr (ys ! i))"
proof (induction xs arbitrary: ys)
  case Nil
  then show ?case by simp
next
  case (Cons x xs)
  from Cons.prems obtain y ys' where y: "f x = Inr y" and ys': "mapE f xs = Inr ys'"
    and ys: "ys = y # ys'"
    by (auto split: sum.splits)
  from Cons.IH[OF ys'] have "length ys' = length xs" "\<forall>i < length xs. f (xs ! i) = Inr (ys' ! i)"
    by auto
  then show ?case using y ys by (auto simp: nth_Cons split: nat.splits)
qed

lemma mapE_Inr_iff:
  "(\<exists>ys. mapE f xs = Inr ys) \<longleftrightarrow> (\<forall>x \<in> set xs. \<exists>y. f x = Inr y)"
  by (induction xs) (auto split: sum.splits)

lemma foldE_Inr_iff_indep:
  assumes "\<And>x s. (\<exists>s'. f x s = Inr s') \<longleftrightarrow> P x"
  shows "(\<exists>s'. foldE f xs s = Inr s') \<longleftrightarrow> (\<forall>x \<in> set xs. P x)"
proof (induction xs arbitrary: s)
  case Nil
  show ?case by simp
next
  case (Cons x xs)
  show ?case
  proof (cases "f x s")
    case (Inl e)
    then have "\<not> P x" using assms[of x s] by auto
    then show ?thesis using Inl by simp
  next
    case (Inr s1)
    then have "P x" using assms[of x s] by auto
    then show ?thesis using Inr Cons.IH[of s1] by simp
  qed
qed

lemma p2g_Inr_iff:
  "(\<exists>g'. p2g pd dt ps g = Inr g') \<longleftrightarrow> (\<forall>p \<in> set ps. stencil_ok (p2g_base_coord p))"
  unfolding p2g_def
  by (rule foldE_Inr_iff_indep) (simp add: p2g_particle_eq)

lemma p2g_untouched:
  "p2g pd dt ps g = Inr g' \<Longrightarrow> \<forall>p \<in> set ps. ab \<notin> set (stencil (p2g_base_coord p)) \<Longrightarrow>
   g' ab = g ab"
proof (induction ps arbitrary: g)
  case Nil
  then show ?case by (simp add: p2g_def)
next
  case (Cons p ps)
  from Cons.prems(1) obtain g1 where g1: "p2g_particle pd dt p g = Inr g1"
    and rest: "p2g pd dt ps g1 = Inr g'"
    by (auto simp: p2g_def split: sum.splits)
  have "g' ab = g1 ab" using Cons.IH[OF rest] Cons.prems(2) by simp
  moreover have "g1 ab = g ab"
    using g1 Cons.prems(2) by (auto simp: p2g_particle_eq split: if_splits)
  ultimately show ?case by simp
qed


lemma stencil_ok_range:
  "stencil_ok (p2g_base_coord p) \<longleftrightarrow>
     0.5 * dx \<le> vx (p_x p) \<and> vx (p_x p) < (real_of_int n - 0.5) * dx \<and>
     0.5 * dx \<le> vy (p_x p) \<and> vy (p_x p) < (real_of_int n - 0.5) * dx"
proof -
  have a: "0 \<le> \<lfloor>80 * t - 1 / 2\<rfloor> \<longleftrightarrow> 1 / 160 \<le> t" for t :: real
  proof -
    have "0 \<le> \<lfloor>80 * t - 1 / 2\<rfloor> \<longleftrightarrow> 0 \<le> 80 * t - 1 / 2" by (simp add: le_floor_iff)
    also have "\<dots> \<longleftrightarrow> 1 / 160 \<le> t" by linarith
    finally show ?thesis .
  qed
  have b: "\<lfloor>80 * t - 1 / 2\<rfloor> + 2 \<le> 80 \<longleftrightarrow> t < 159 / 160" for t :: real
  proof -
    have "\<lfloor>80 * t - 1 / 2\<rfloor> + 2 \<le> 80 \<longleftrightarrow> \<lfloor>80 * t - 1 / 2\<rfloor> < 79" by linarith
    also have "\<dots> \<longleftrightarrow> 80 * t - 1 / 2 < 79" by (simp add: floor_less_iff)
    also have "\<dots> \<longleftrightarrow> t < 159 / 160" by linarith
    finally show ?thesis .
  qed
  show ?thesis
    unfolding stencil_ok_def p2g_base_coord_def cast_int_def
    by (simp add: vsub_def vscale_def Vec1_def inv_dx_eq dx_eq n_def a b) linarith
qed

lemma base_coord_same: "g2p_base_coord p = p2g_base_coord p"
  by (simp add: g2p_base_coord_def p2g_base_coord_def)

lemma fx_same: "g2p_fx p = p2g_fx p"
  by (simp add: g2p_fx_def p2g_fx_def base_coord_same)

lemma w_same: "g2p_w p = p2g_w p"
  by (simp add: g2p_w_def p2g_w_def fx_same)

lemma advance_Inr:
  assumes "advance pd svd dt s = Inr s'"
  obtains ga where "p2g pd dt (particles s) zero_grid = Inr ga"
    and "grid s' = grid_solve dt ga"
    and "g2p svd dt (grid_solve dt ga) (particles s) = Inr (particles s')"
  using assms by (auto simp: advance_def Let_def split: sum.splits)

lemma advance_frame:
  assumes "advance pd svd dt s = Inr s'"
  shows "length (particles s') = length (particles s)"
    and "\<And>i. i < length (particles s) \<Longrightarrow> p_type (particles s' ! i) = p_type (particles s ! i)"
    and "\<And>i. i < length (particles s) \<Longrightarrow> p_c (particles s' ! i) = p_c (particles s ! i)"
    and "\<And>i. i < length (particles s) \<Longrightarrow> p_type (particles s ! i) = 2 \<Longrightarrow>
           p_F (particles s' ! i) = p_F (particles s ! i)"
proof -
  from assms obtain ga where g2p: "g2p svd dt (grid_solve dt ga) (particles s) = Inr (particles s')"
    by (rule advance_Inr)
  from mapE_Inr[OF g2p[unfolded g2p_def]]
  have len: "length (particles s') = length (particles s)"
    and each: "\<And>i. i < length (particles s) \<Longrightarrow>
       g2p_particle svd dt (grid_solve dt ga) (particles s ! i) = Inr (particles s' ! i)"
    by auto
  show "length (particles s') = length (particles s)" by (rule len)
  show "p_type (particles s' ! i) = p_type (particles s ! i)" if "i < length (particles s)" for i
    using g2p_particle_frame(1)[OF each[OF that]] .
  show "p_c (particles s' ! i) = p_c (particles s ! i)" if "i < length (particles s)" for i
    using g2p_particle_frame(2)[OF each[OF that]] .
  show "p_F (particles s' ! i) = p_F (particles s ! i)"
    if "i < length (particles s)" "p_type (particles s ! i) = 2" for i
    using g2p_particle_frame(3)[OF each[OF that(1)] that(2)] .
qed

lemma steps_frame:
  "steps k pd svd dt s = Inr s' \<Longrightarrow>
   length (particles s') = length (particles s) \<and>
   (\<forall>i < length (particles s).
      p_type (particles s' ! i) = p_type (particles s ! i) \<and>
      p_c (particles s' ! i) = p_c (particles s ! i) \<and>
      (p_type (particles s ! i) = 2 \<longrightarrow> p_F (particles s' ! i) = p_F (particles s ! i)))"
proof (induction k arbitrary: s)
  case 0
  then show ?case by simp
next
  case (Suc k)
  from Suc.prems obtain s1 where a: "advance pd svd dt s = Inr s1"
    and r: "steps k pd svd dt s1 = Inr s'"
    by (auto split: sum.splits)
  note f = advance_frame[OF a]
  from Suc.IH[OF r] f show ?case by simp
qed

lemma advance_particles_only:
  "particles s1 = particles s2 \<Longrightarrow> advance pd svd dt s1 = advance pd svd dt s2"
  by (auto simp: advance_def Let_def split: sum.splits)

lemma advance_Inr_iff:
  "(\<exists>s'. advance pd svd dt s = Inr s') \<longleftrightarrow>
   (\<forall>p \<in> set (particles s). stencil_ok (p2g_base_coord p))"
proof
  assume "\<exists>s'. advance pd svd dt s = Inr s'"
  then obtain s' where "advance pd svd dt s = Inr s'" ..
  then obtain ga where "p2g pd dt (particles s) zero_grid = Inr ga"
    by (rule advance_Inr)
  then show "\<forall>p \<in> set (particles s). stencil_ok (p2g_base_coord p)"
    using p2g_Inr_iff[of pd dt "particles s" zero_grid] by blast
next
  assume ok: "\<forall>p \<in> set (particles s). stencil_ok (p2g_base_coord p)"
  then obtain ga where ga: "p2g pd dt (particles s) zero_grid = Inr ga"
    using p2g_Inr_iff[of pd dt "particles s" zero_grid] by blast
  have "\<forall>p \<in> set (particles s). \<exists>p'. g2p_particle svd dt (grid_solve dt ga) p = Inr p'"
    using ok by (simp add: g2p_particle_eq base_coord_same Let_def)
  then obtain ps where "g2p svd dt (grid_solve dt ga) (particles s) = Inr ps"
    unfolding g2p_def using mapE_Inr_iff[of "g2p_particle svd dt (grid_solve dt ga)" "particles s"]
    by blast
  then show "\<exists>s'. advance pd svd dt s = Inr s'"
    using ga by (simp add: advance_def Let_def)
qed

lemma centre_stencil_ok:
  "stencil_ok (p2g_base_coord (new_Particle (Vec (1 / 2) (1 / 2)) c ty v))"
  by (subst stencil_ok_range) (simp add: new_Particle_def dx_eq n_def)

lemma centre_advance:
  "\<exists>s'. advance pd svd dt \<lparr>particles = [new_Particle (Vec (1 / 2) (1 / 2)) c ty v], grid = g\<rparr> = Inr s'"
  unfolding advance_Inr_iff using centre_stencil_ok by simp

lemma kernel_sum: "0.5 * ((1.5 - f) * (1.5 - f)) + (0.75 - (f - 1) * (f - 1)) + 0.5 * ((f - 0.5) * (f - 0.5)) = (1::real)"
  by (simp add: algebra_simps)

lemma p2g_w_nth:
  "vx (p2g_w p ! 0) = 0.5 * ((1.5 - vx (p2g_fx p)) * (1.5 - vx (p2g_fx p)))"
  "vx (p2g_w p ! Suc 0) = 0.75 - (vx (p2g_fx p) - 1) * (vx (p2g_fx p) - 1)"
  "vx (p2g_w p ! 2) = 0.5 * ((vx (p2g_fx p) - 0.5) * (vx (p2g_fx p) - 0.5))"
  "vy (p2g_w p ! 0) = 0.5 * ((1.5 - vy (p2g_fx p)) * (1.5 - vy (p2g_fx p)))"
  "vy (p2g_w p ! Suc 0) = 0.75 - (vy (p2g_fx p) - 1) * (vy (p2g_fx p) - 1)"
  "vy (p2g_w p ! 2) = 0.5 * ((vy (p2g_fx p) - 0.5) * (vy (p2g_fx p) - 0.5))"
  by (simp_all add: p2g_w_def Let_def sqr_def vmul_def vsub_def Vec1_def)

lemma p2g_w_sum:
  "vx (p2g_w p ! 0) + vx (p2g_w p ! Suc 0) + vx (p2g_w p ! 2) = 1"
  "vy (p2g_w p ! 0) + vy (p2g_w p ! Suc 0) + vy (p2g_w p ! 2) = 1"
  unfolding p2g_w_nth by (rule kernel_sum)+

lemma nine_products:
  fixes a0 a1 a2 b0 b1 b2 :: real
  assumes "a0 + a1 + a2 = 1" "b0 + b1 + b2 = 1"
  shows "a0 * b0 + (a0 * b1 + (a0 * b2 + (a1 * b0 + (a1 * b1 + (a1 * b2 + (a2 * b0 + (a2 * b1 + a2 * b2))))))) = 1"
proof -
  have "a0 * b0 + (a0 * b1 + (a0 * b2 + (a1 * b0 + (a1 * b1 + (a1 * b2 + (a2 * b0 + (a2 * b1 + a2 * b2)))))))
        = (a0 + a1 + a2) * (b0 + b1 + b2)"
    by (simp add: algebra_simps)
  then show ?thesis using assms by simp
qed

lemma product_weights_sum:
  "(\<Sum>ij\<leftarrow>offsets. vx (p2g_w p ! nat (fst ij)) * vy (p2g_w p ! nat (snd ij))) = 1"
  unfolding offsets_def
  by (simp add: nine_products[OF p2g_w_sum] numeral_2_eq_2[symmetric])

lemma contribution_mass:
  "g2 (p2g_contribution A p ij) =
     vx (p2g_w p ! nat (fst ij)) * vy (p2g_w p ! nat (snd ij)) * particle_mass"
  by (simp add: p2g_contribution_def Let_def vscale3_def vadd3_def Vector3_of_def)

lemma scattered_mass:
  "(\<Sum>ij\<leftarrow>offsets. g2 (p2g_contribution A p ij)) = particle_mass"
proof -
  have "(\<Sum>ij\<leftarrow>offsets. g2 (p2g_contribution A p ij)) =
        (\<Sum>ij\<leftarrow>offsets. vx (p2g_w p ! nat (fst ij)) * vy (p2g_w p ! nat (snd ij))) * particle_mass"
    unfolding contribution_mass by (simp add: sum_list_mult_const)
  then show ?thesis by (simp add: product_weights_sum)
qed

lemma stencil_mass_gain:
  assumes "p2g_particle pd dt p g = Inr g'"
  shows "(\<Sum>ab\<leftarrow>stencil (p2g_base_coord p). g2 (g' ab) - g2 (g ab)) = particle_mass"
proof -
  let ?A = "p2g_affine pd dt p" and ?b = "p2g_base_coord p"
  have g': "g' = (\<lambda>ab. if ab \<in> set (stencil ?b)
                      then vadd3 (g ab) (p2g_contribution ?A p (fst ab - ix ?b, snd ab - iy ?b))
                      else g ab)"
    using assms by (auto simp: p2g_particle_eq split: if_splits)
  have "(\<Sum>ab\<leftarrow>stencil ?b. g2 (g' ab) - g2 (g ab)) =
        (\<Sum>ab\<leftarrow>stencil ?b. g2 (p2g_contribution ?A p (fst ab - ix ?b, snd ab - iy ?b)))"
    by (rule arg_cong[where f=sum_list], rule map_cong[OF refl]) (simp add: g' vadd3_def)
  also have "\<dots> = (\<Sum>ij\<leftarrow>offsets. g2 (p2g_contribution ?A p ij))"
    by (simp add: stencil_def comp_def)
  finally show ?thesis by (simp add: scattered_mass)
qed

lemma node_solve_skip: "\<not> 0 < g2 a \<Longrightarrow> node_solve dt i j a = a"
  by (simp add: node_solve_def)

lemma untouched_node_zero:
  assumes "advance pd svd dt s = Inr s'"
    and "\<forall>p \<in> set (particles s). (i, j) \<notin> set (stencil (p2g_base_coord p))"
  shows "grid s' (i, j) = Vector3 0 0 0"
proof -
  from assms(1) obtain ga where ga: "p2g pd dt (particles s) zero_grid = Inr ga"
    and gs: "grid s' = grid_solve dt ga"
    by (rule advance_Inr)
  have "ga (i, j) = Vector3 0 0 0"
    using p2g_untouched[OF ga assms(2)] by (simp add: zero_grid_def)
  then show ?thesis
    unfolding gs grid_solve_apply by (simp add: node_solve_def)
qed

lemma centre_base: "p2g_base_coord (new_Particle (Vec (1 / 2) (1 / 2)) c ty v) = Vector2i 39 39"
  by (simp add: p2g_base_coord_def new_Particle_def cast_int_def vsub_def vscale_def Vec1_def inv_dx_eq)

lemma p2g_single: "p2g pd dt [p] g = p2g_particle pd dt p g"
  by (simp add: p2g_def split: sum.splits)

lemma g2p_single:
  "g2p svd dt g [p] = (case g2p_particle svd dt g p of Inl e \<Rightarrow> Inl e | Inr p' \<Rightarrow> Inr [p'])"
  by (simp add: g2p_def split: sum.splits)

lemma mid_base: "p_x p = Vec (1 / 2) (1 / 2) \<Longrightarrow> p2g_base_coord p = Vector2i 39 39"
  by (simp add: p2g_base_coord_def cast_int_def vsub_def vscale_def Vec1_def inv_dx_eq)

lemma mid_fx: "p_x p = Vec (1 / 2) (1 / 2) \<Longrightarrow> p2g_fx p = Vec 1 1"
  by (simp add: p2g_fx_def mid_base cast_real_def vsub_def vscale_def inv_dx_eq)

lemma mid_w:
  "p_x p = Vec (1 / 2) (1 / 2) \<Longrightarrow>
   p2g_w p = [Vec (1 / 8) (1 / 8), Vec (3 / 4) (3 / 4), Vec (1 / 8) (1 / 8)]"
  by (simp add: p2g_w_def mid_fx sqr_def vmul_def vsub_def Vec1_def)

lemma mid_weight:
  assumes "p_x p = Vec (1 / 2) (1 / 2)" "i \<in> {0, 1, 2}"
  shows "vx (p2g_w p ! nat i) = mid_w1 i" "vy (p2g_w p ! nat i) = mid_w1 i"
  using assms(2) by (auto simp: mid_w[OF assms(1)] mid_w1_def)

lemma mid_contribution:
  assumes px: "p_x p = Vec (1 / 2) (1 / 2)" and ij: "i \<in> {0, 1, 2}" "j \<in> {0, 1, 2}"
  shows "p2g_contribution (Mat a b c d) p (i, j) =
     vscale3 (mid_w1 i * mid_w1 j)
       (Vector3 (vx (p_v p) + (a * (real_of_int i - 1) + b * (real_of_int j - 1)) / 80)
                (vy (p_v p) + (c * (real_of_int i - 1) + d * (real_of_int j - 1)) / 80) 1)"
  unfolding p2g_contribution_def Let_def fst_conv snd_conv mid_weight[OF px ij(1)]
    mid_weight[OF px ij(2)] mid_fx[OF px]
  by (simp add: dx_eq vsub_def vscale_def particle_mass_def vadd3_def Vector3_of_def mvmul_def
        add_divide_distrib)

lemma mid_node:
  assumes px: "p_x p = Vec (1 / 2) (1 / 2)"
    and ij: "i \<in> {0, 1, 2}" "j \<in> {0, 1, 2}"
    and A: "p2g_affine pd dt p = Mat a b c d"
    and ga: "p2g pd dt [p] zero_grid = Inr ga"
  shows "grid_solve dt ga (39 + i, 39 + j) =
     Vector3 (vx (p_v p) + (a * (real_of_int i - 1) + b * (real_of_int j - 1)) / 80)
             (vy (p_v p) + (c * (real_of_int i - 1) + d * (real_of_int j - 1)) / 80 - 200 * dt) 1"
proof -
  have st: "(39 + i, 39 + j) \<in> set (stencil (Vector2i 39 39))"
    using ij by (auto simp: in_stencil_iff set_offsets)
  have "ga = (\<lambda>ab. if ab \<in> set (stencil (Vector2i 39 39))
                      then vadd3 (zero_grid ab) (p2g_contribution (Mat a b c d) p
                             (fst ab - 39, snd ab - 39))
                      else zero_grid ab)"
    using ga unfolding p2g_single p2g_particle_eq mid_base[OF px] A
    by (auto split: if_splits)
  then have "ga (39 + i, 39 + j) = vadd3 (Vector3 0 0 0) (p2g_contribution (Mat a b c d) p (i, j))"
    using st by (simp add: zero_grid_def)
  then have gaij: "ga (39 + i, 39 + j) = vscale3 (mid_w1 i * mid_w1 j)
       (Vector3 (vx (p_v p) + (a * (real_of_int i - 1) + b * (real_of_int j - 1)) / 80)
                (vy (p_v p) + (c * (real_of_int i - 1) + d * (real_of_int j - 1)) / 80) 1)"
    unfolding mid_contribution[OF px ij] by (simp add: vadd3_def vscale3_def)
  have w: "0 < mid_w1 i * mid_w1 j" "mid_w1 i \<noteq> 0" "mid_w1 j \<noteq> 0"
    by (simp_all add: mid_w1_def)
  have ing: "in_grid (39 + i) (39 + j)" using ij by (auto simp: in_grid_def n_def)
  have band: "\<not> (real_of_int (39 + i) / real_of_int n < 0.05)"
    "\<not> (real_of_int (39 + i) / real_of_int n > 1 - 0.05)"
    "\<not> (real_of_int (39 + j) / real_of_int n > 1 - 0.05)"
    "\<not> (real_of_int (39 + j) / real_of_int n < 0.05)"
    using ij by (auto simp: n_def)
  show ?thesis
    unfolding grid_solve_apply gaij using ing w band
    by (simp add: node_solve_def vscale3_def vdiv3_def vadd3_def Let_def)
qed


lemma mid_stencil_moments:
  "(\<Sum>ij\<leftarrow>offsets. mid_w1 (fst ij) * mid_w1 (snd ij)) = 1"
  "(\<Sum>ij\<leftarrow>offsets. mid_w1 (fst ij) * mid_w1 (snd ij) * (real_of_int (fst ij) - 1)) = 0"
  "(\<Sum>ij\<leftarrow>offsets. mid_w1 (fst ij) * mid_w1 (snd ij) * (real_of_int (snd ij) - 1)) = 0"
  by (simp_all add: offsets_def mid_w1_def)

lemma fold_gather_v:
  "vx (fst (fold (gather_step g p) ijs acc)) =
     vx (fst acc) + (\<Sum>ij\<leftarrow>ijs. g2p_weight p ij *
        g0 (g (ix (g2p_base_coord p) + fst ij, iy (g2p_base_coord p) + snd ij)))"
  "vy (fst (fold (gather_step g p) ijs acc)) =
     vy (fst acc) + (\<Sum>ij\<leftarrow>ijs. g2p_weight p ij *
        g1 (g (ix (g2p_base_coord p) + fst ij, iy (g2p_base_coord p) + snd ij)))"
  by (induction ijs arbitrary: acc)
     (simp_all add: gather_step_def Let_def vadd_def vscale_def Vec_of_def)

lemma mid_gather_v:
  assumes px: "p_x p = Vec (1 / 2) (1 / 2)"
    and A: "p2g_affine pd dt p = Mat a b c d"
    and ga: "p2g pd dt [p] zero_grid = Inr ga"
  shows "fst (fold (gather_step (grid_solve dt ga) p) offsets (Vec1 0, Mat1 0)) =
           Vec (vx (p_v p)) (vy (p_v p) - 200 * dt)"
proof -
  define ka kb kc kd where k: "ka = a / 80" "kb = b / 80" "kc = c / 80" "kd = d / 80"
  have node: "grid_solve dt ga (39 + fst ij, 39 + snd ij) =
     Vector3 (vx (p_v p) + (ka * (real_of_int (fst ij) - 1) + kb * (real_of_int (snd ij) - 1)))
             (vy (p_v p) - 200 * dt
                + (kc * (real_of_int (fst ij) - 1) + kd * (real_of_int (snd ij) - 1))) 1"
    if "ij \<in> set offsets" for ij
    using that mid_node[OF px _ _ A ga, of "fst ij" "snd ij"]
    by (auto simp: set_offsets k add_divide_distrib)
  have wt: "g2p_weight p ij = mid_w1 (fst ij) * mid_w1 (snd ij)" if "ij \<in> set offsets" for ij
    using that mid_weight[OF px, of "fst ij"] mid_weight[OF px, of "snd ij"]
    by (auto simp: g2p_weight_def w_same set_offsets)
  have bc: "g2p_base_coord p = Vector2i 39 39"
    by (simp add: base_coord_same mid_base[OF px])
  have lin: "(\<Sum>ij\<leftarrow>offsets. g2p_weight p ij *
               (u + (r * (real_of_int (fst ij) - 1) + t * (real_of_int (snd ij) - 1)))) = u"
    for u r t :: real
  proof -
    have "(\<Sum>ij\<leftarrow>offsets. g2p_weight p ij *
               (u + (r * (real_of_int (fst ij) - 1) + t * (real_of_int (snd ij) - 1)))) =
          (\<Sum>ij\<leftarrow>offsets. u * (mid_w1 (fst ij) * mid_w1 (snd ij))
              + r * (mid_w1 (fst ij) * mid_w1 (snd ij) * (real_of_int (fst ij) - 1))
              + t * (mid_w1 (fst ij) * mid_w1 (snd ij) * (real_of_int (snd ij) - 1)))"
    proof (rule arg_cong[where f=sum_list], rule map_cong[OF refl])
      fix ij assume m: "ij \<in> set offsets"
      show "g2p_weight p ij *
               (u + (r * (real_of_int (fst ij) - 1) + t * (real_of_int (snd ij) - 1))) =
            u * (mid_w1 (fst ij) * mid_w1 (snd ij))
              + r * (mid_w1 (fst ij) * mid_w1 (snd ij) * (real_of_int (fst ij) - 1))
              + t * (mid_w1 (fst ij) * mid_w1 (snd ij) * (real_of_int (snd ij) - 1))"
        unfolding wt[OF m] by (simp add: algebra_simps)
    qed
    also have "\<dots> = u"
      by (simp add: sum_list_addf sum_list_const_mult mid_stencil_moments)
    finally show ?thesis .
  qed
  have X: "(\<Sum>ij\<leftarrow>offsets. g2p_weight p ij * g0 (grid_solve dt ga (39 + fst ij, 39 + snd ij))) =
      vx (p_v p)"
  proof -
    have "(\<Sum>ij\<leftarrow>offsets. g2p_weight p ij * g0 (grid_solve dt ga (39 + fst ij, 39 + snd ij))) =
      (\<Sum>ij\<leftarrow>offsets. g2p_weight p ij *
         (vx (p_v p) + (ka * (real_of_int (fst ij) - 1) + kb * (real_of_int (snd ij) - 1))))"
      by (rule arg_cong[where f=sum_list], rule map_cong[OF refl]) (simp only: node Vector3.sel)
    then show ?thesis by (simp only: lin)
  qed
  have Y: "(\<Sum>ij\<leftarrow>offsets. g2p_weight p ij * g1 (grid_solve dt ga (39 + fst ij, 39 + snd ij))) =
      vy (p_v p) - 200 * dt"
  proof -
    have "(\<Sum>ij\<leftarrow>offsets. g2p_weight p ij * g1 (grid_solve dt ga (39 + fst ij, 39 + snd ij))) =
      (\<Sum>ij\<leftarrow>offsets. g2p_weight p ij *
         (vy (p_v p) - 200 * dt
            + (kc * (real_of_int (fst ij) - 1) + kd * (real_of_int (snd ij) - 1))))"
      by (rule arg_cong[where f=sum_list], rule map_cong[OF refl]) (simp only: node Vector3.sel)
    then show ?thesis by (simp only: lin)
  qed
  show ?thesis
    by (rule Vec.expand) (simp add: fold_gather_v bc X Y Vec1_def)
qed

lemma mid_advance:
  assumes px: "p_x p = Vec (1 / 2) (1 / 2)"
  shows "case advance pd svd dt \<lparr>particles = [p], grid = g\<rparr> of
           Inl e \<Rightarrow> False
         | Inr s' \<Rightarrow>
             map p_v (particles s') = [Vec (vx (p_v p)) (vy (p_v p) - 200 * dt)] \<and>
             map p_x (particles s') =
               [Vec (1 / 2 + dt * vx (p_v p)) (1 / 2 + dt * (vy (p_v p) - 200 * dt))]"
proof -
  have ok: "stencil_ok (p2g_base_coord p)"
    by (simp add: mid_base[OF px] stencil_ok_def n_def)
  then obtain ga where ga: "p2g pd dt [p] zero_grid = Inr ga"
    using p2g_Inr_iff[of pd dt "[p]" zero_grid] by auto
  obtain a b c d where A: "p2g_affine pd dt p = Mat a b c d"
    by (cases "p2g_affine pd dt p") auto
  note v = mid_gather_v[OF px A ga]
  have "g2p_particle svd dt (grid_solve dt ga) p =
     Inr (g2p_deform svd dt
       (p\<lparr>p_C := snd (fold (gather_step (grid_solve dt ga) p) offsets (Vec1 0, Mat1 0)),
          p_v := Vec (vx (p_v p)) (vy (p_v p) - 200 * dt),
          p_x := Vec (1 / 2 + dt * vx (p_v p)) (1 / 2 + dt * (vy (p_v p) - 200 * dt))\<rparr>))"
    using ok unfolding g2p_particle_eq base_coord_same Let_def
    by (simp add: v px vadd_def vscale_def)
  then show ?thesis
    by (simp add: advance_def ga g2p_single Let_def g2p_deform_frame)
qed

lemma rest_affine:
  assumes "fst (pd (Mat1 1)) = Mat1 1"
  shows "p2g_affine pd dt (new_Particle x c ty v) = Mat1 0"
  using assms
  by (simp add: p2g_affine_def new_Particle_def Let_def Mat1_def determinant_def msub_def
        mmul_def mscale_def madd_def transposed_def)

lemma mmul_assoc: "mmul (mmul A B) C = mmul A (mmul B C)"
  by (simp add: mmul_def algebra_simps)

lemma transposed_mmul: "transposed (mmul A B) = mmul (transposed B) (transposed A)"
  by (simp add: mmul_def transposed_def algebra_simps)

lemma transposed_transposed: "transposed (transposed A) = A"
  by (simp add: transposed_def)

lemma mmul_one: "mmul (Mat1 1) A = A" "mmul A (Mat1 1) = A"
  by (simp_all add: mmul_def Mat1_def)

lemma determinant_mmul: "determinant (mmul A B) = determinant A * determinant B"
  by (simp add: mmul_def determinant_def algebra_simps)

lemma determinant_transposed: "determinant (transposed A) = determinant A"
  by (simp add: transposed_def determinant_def)

lemma determinant_orthogonal:
  assumes "orthogonal V"
  shows "determinant V * determinant V = 1"
proof -
  have "determinant (mmul V (transposed V)) = 1"
    using assms by (simp add: orthogonal_def Mat1_def determinant_def)
  then show ?thesis by (simp add: determinant_mmul determinant_transposed)
qed

lemma sandwich_sub:
  "msub (mmul (mmul V D) (transposed V)) (mmul (mmul V (Mat1 k)) (transposed V)) =
   mmul (mmul V (msub D (Mat1 k))) (transposed V)"
  by (simp add: mmul_def msub_def transposed_def Mat1_def algebra_simps)

lemma Mat1_as_sandwich:
  assumes "orthogonal V"
  shows "Mat1 k = mmul (mmul V (Mat1 k)) (transposed V)"
proof -
  have "mmul (mmul V (Mat1 k)) (transposed V) = mmul (Mat1 k) (mmul V (transposed V))"
    by (simp add: mmul_def Mat1_def transposed_def algebra_simps)
  also have "\<dots> = Mat1 k"
    using assms by (simp add: orthogonal_def mmul_def Mat1_def)
  finally show ?thesis by simp
qed

lemma gram_of_svd:
  assumes U: "orthogonal U"
  shows "mmul (transposed (mmul (mmul U (Mat a 0 0 b)) (transposed V)))
              (mmul (mmul U (Mat a 0 0 b)) (transposed V)) =
         mmul (mmul V (Mat (a * a) 0 0 (b * b))) (transposed V)"
proof -
  let ?D = "Mat a 0 0 b"
  have tD: "transposed ?D = ?D" by (simp add: transposed_def)
  have "mmul (transposed (mmul (mmul U ?D) (transposed V))) (mmul (mmul U ?D) (transposed V)) =
        mmul (mmul V (mmul ?D (mmul (mmul (transposed U) U) ?D))) (transposed V)"
    by (simp only: transposed_mmul transposed_transposed tD mmul_assoc)
  also have "mmul ?D (mmul (mmul (transposed U) U) ?D) = Mat (a * a) 0 0 (b * b)"
    using U by (simp add: orthogonal_def mmul_one) (simp add: mmul_def)
  finally show ?thesis .
qed

lemma singular_values_of_svd:
  assumes U: "orthogonal U" and V: "orthogonal V" and a: "0 < a" and b: "0 < b"
  shows "is_singular_value (mmul (mmul U (Mat a 0 0 b)) (transposed V)) sv \<longleftrightarrow>
           sv = a \<or> sv = b"
proof -
  let ?M = "mmul (mmul U (Mat a 0 0 b)) (transposed V)"
  have "msub (mmul (transposed ?M) ?M) (Mat1 (sv * sv)) =
        mmul (mmul V (msub (Mat (a * a) 0 0 (b * b)) (Mat1 (sv * sv)))) (transposed V)"
    unfolding gram_of_svd[OF U]
    by (subst Mat1_as_sandwich[OF V, of "sv * sv"]) (rule sandwich_sub)
  then have "determinant (msub (mmul (transposed ?M) ?M) (Mat1 (sv * sv))) =
        (determinant V * determinant V) *
          determinant (msub (Mat (a * a) 0 0 (b * b)) (Mat1 (sv * sv)))"
    by (simp add: determinant_mmul determinant_transposed)
  also have "\<dots> = determinant (msub (Mat (a * a) 0 0 (b * b)) (Mat1 (sv * sv)))"
    by (simp only: determinant_orthogonal[OF V] mult_1)
  also have "\<dots> = (a * a - sv * sv) * (b * b - sv * sv)"
    by (simp add: determinant_def msub_def Mat1_def)
  finally have d: "determinant (msub (mmul (transposed ?M) ?M) (Mat1 (sv * sv))) =
        (a * a - sv * sv) * (b * b - sv * sv)" .
  have sq: "x * x = sv * sv \<longleftrightarrow> sv = x" if "0 < x" "0 \<le> sv" for x :: real
  proof
    assume e: "x * x = sv * sv"
    have "(x - sv) * (x + sv) = 0" using e by (simp add: algebra_simps)
    moreover have "x + sv \<noteq> 0" using that by linarith
    ultimately show "sv = x" by simp
  qed simp
  show ?thesis
  proof (cases "0 \<le> sv")
    case True
    then show ?thesis
      unfolding is_singular_value_def d using sq[OF a True] sq[OF b True] by auto
  next
    case False
    then show ?thesis unfolding is_singular_value_def using a b by auto
  qed
qed


lemma clamp_bounds: "lo \<le> hi \<Longrightarrow> lo \<le> clamp x lo hi \<and> clamp x lo hi \<le> hi"
  by (simp add: clamp_def)

lemma snow_deform:
  assumes ok: "svd_ok svd" and ty: "p_type p = 1"
  shows "0.6 \<le> p_Jp (g2p_deform svd dt p) \<and> p_Jp (g2p_deform svd dt p) \<le> 20 \<and>
         (\<exists>sv. is_singular_value (p_F (g2p_deform svd dt p)) sv) \<and>
         (\<forall>sv. is_singular_value (p_F (g2p_deform svd dt p)) sv \<longrightarrow>
               1 - 0.025 \<le> sv \<and> sv \<le> 1 + 0.0075)"
proof -
  define F where "F = mmul (madd (Mat1 1) (mscale dt (p_C p))) (p_F p)"
  define U where "U = fst (svd F)"
  define S where "S = fst (snd (svd F))"
  define V where "V = snd (snd (svd F))"
  define a where "a = clamp (m00 S) (1.0 - 0.025) (1.0 + 0.0075)"
  define b where "b = clamp (m11 S) (1.0 - 0.025) (1.0 + 0.0075)"
  have UV: "orthogonal U" "orthogonal V" and S0: "m01 S = 0" "m10 S = 0"
    using ok unfolding svd_ok_def U_def V_def S_def by auto
  have ab: "1 - 0.025 \<le> a" "a \<le> 1 + 0.0075" "1 - 0.025 \<le> b" "b \<le> 1 + 0.0075"
    using clamp_bounds[of "1.0 - 0.025" "1.0 + 0.0075" "m00 S"]
      clamp_bounds[of "1.0 - 0.025" "1.0 + 0.0075" "m11 S"]
    unfolding a_def b_def by simp_all
  have pos: "0 < a" "0 < b" using ab by simp_all
  have Fnew: "p_F (g2p_deform svd dt p) = mmul (mmul U (Mat a 0 0 b)) (transposed V)"
    using ty S0
    by (simp add: g2p_deform_def Let_def F_def[symmetric] U_def[symmetric] S_def[symmetric]
          V_def[symmetric] a_def b_def)
  have Jp: "p_Jp (g2p_deform svd dt p) =
      clamp (p_Jp p * determinant F / determinant (mmul (mmul U (Mat a 0 0 b)) (transposed V)))
        0.6 20.0"
    using ty S0
    by (simp add: g2p_deform_def Let_def F_def[symmetric] U_def[symmetric] S_def[symmetric]
          V_def[symmetric] a_def b_def)
  have J: "0.6 \<le> p_Jp (g2p_deform svd dt p) \<and> p_Jp (g2p_deform svd dt p) \<le> 20"
    unfolding Jp using clamp_bounds[of "0.6" "20.0"] by simp
  note sv = singular_values_of_svd[OF UV pos]
  have "is_singular_value (p_F (g2p_deform svd dt p)) a"
    unfolding Fnew sv by simp
  moreover have "1 - 0.025 \<le> sv \<and> sv \<le> 1 + 0.0075"
    if "is_singular_value (p_F (g2p_deform svd dt p)) sv" for sv
    using that ab unfolding Fnew sv by auto
  ultimately show ?thesis using J by blast
qed

lemma steps_Suc_end:
  "steps (Suc k) pd svd dt s = Inr s' \<Longrightarrow>
   \<exists>s1. steps k pd svd dt s = Inr s1 \<and> advance pd svd dt s1 = Inr s'"
proof (induction k arbitrary: s)
  case 0
  then show ?case by (auto split: sum.splits)
next
  case (Suc k)
  from Suc.prems obtain s0 where a: "advance pd svd dt s = Inr s0"
    and r: "steps (Suc k) pd svd dt s0 = Inr s'"
    by (auto split: sum.splits)
  from Suc.IH[OF r] obtain s1 where "steps k pd svd dt s0 = Inr s1" "advance pd svd dt s1 = Inr s'"
    by blast
  then show ?case using a by auto
qed

lemma advance_member:
  assumes "advance pd svd dt s = Inr s'" and "p' \<in> set (particles s')"
  obtains g p where "p \<in> set (particles s)" and "g2p_particle svd dt g p = Inr p'"
proof -
  from assms(1) obtain ga where g2p: "g2p svd dt (grid_solve dt ga) (particles s) = Inr (particles s')"
    by (rule advance_Inr)
  from mapE_Inr[OF g2p[unfolded g2p_def]]
  have len: "length (particles s') = length (particles s)"
    and each: "\<And>i. i < length (particles s) \<Longrightarrow>
       g2p_particle svd dt (grid_solve dt ga) (particles s ! i) = Inr (particles s' ! i)"
    by auto
  from assms(2) obtain i where i: "i < length (particles s')" "p' = particles s' ! i"
    by (auto simp: in_set_conv_nth)
  show ?thesis
    using that[of "particles s ! i" "grid_solve dt ga"] each[of i] i len by simp
qed

lemma diag_svd_ok: "svd_ok (\<lambda>M. (Mat1 1, Mat (m00 M) 0 0 (m11 M), Mat1 1))"
  by (simp add: svd_ok_def orthogonal_def Mat1_def mmul_def transposed_def)

lemma frac_range:
  fixes x :: real
  shows "1 / 2 \<le> 80 * x - real_of_int \<lfloor>80 * x - 1 / 2\<rfloor>"
    and "80 * x - real_of_int \<lfloor>80 * x - 1 / 2\<rfloor> < 3 / 2"
proof -
  have "real_of_int \<lfloor>80 * x - 1 / 2\<rfloor> \<le> 80 * x - 1 / 2" by (rule of_int_floor_le)
  then show "1 / 2 \<le> 80 * x - real_of_int \<lfloor>80 * x - 1 / 2\<rfloor>" by linarith
  have "80 * x - 1 / 2 < real_of_int \<lfloor>80 * x - 1 / 2\<rfloor> + 1" by (rule floor_correct[THEN conjunct2, simplified] )
  then show "80 * x - real_of_int \<lfloor>80 * x - 1 / 2\<rfloor> < 3 / 2" by linarith
qed

lemma fx_range:
  "1 / 2 \<le> vx (p2g_fx p)" "vx (p2g_fx p) < 3 / 2"
  "1 / 2 \<le> vy (p2g_fx p)" "vy (p2g_fx p) < 3 / 2"
  using frac_range[of "vx (p_x p)"] frac_range[of "vy (p_x p)"]
  by (simp_all add: p2g_fx_def p2g_base_coord_def cast_real_def cast_int_def vsub_def
        vscale_def Vec1_def inv_dx_eq)

lemma kernel_nonneg:
  fixes f :: real
  assumes "1 / 2 \<le> f" "f < 3 / 2"
  shows "0 \<le> 0.5 * ((1.5 - f) * (1.5 - f))"
    and "0 \<le> 0.75 - (f - 1) * (f - 1)"
    and "0 \<le> 0.5 * ((f - 0.5) * (f - 0.5))"
proof -
  show "0 \<le> 0.5 * ((1.5 - f) * (1.5 - f))" by simp
  show "0 \<le> 0.5 * ((f - 0.5) * (f - 0.5))" by simp
  have "0 \<le> (f - 1 / 2) * (3 / 2 - f)" using assms by (intro mult_nonneg_nonneg) simp_all
  moreover have "0.75 - (f - 1) * (f - 1) = (f - 1 / 2) * (3 / 2 - f) + 1 / 2"
    by (simp add: field_simps)
  ultimately show "0 \<le> 0.75 - (f - 1) * (f - 1)" by simp
qed

lemma weights_nonneg:
  assumes "i \<in> {0, 1, 2}"
  shows "0 \<le> vx (p2g_w p ! nat i)" "0 \<le> vy (p2g_w p ! nat i)"
proof -
  have n: "nat i = 0 \<or> nat i = Suc 0 \<or> nat i = 2" using assms by auto
  show "0 \<le> vx (p2g_w p ! nat i)"
    using n kernel_nonneg[OF fx_range(1,2), of p] by (auto simp only: p2g_w_nth)
  show "0 \<le> vy (p2g_w p ! nat i)"
    using n kernel_nonneg[OF fx_range(3,4), of p] by (auto simp only: p2g_w_nth)
qed

lemma product_weight_nonneg:
  assumes "ij \<in> set offsets"
  shows "0 \<le> vx (p2g_w p ! nat (fst ij)) * vy (p2g_w p ! nat (snd ij))"
proof -
  have "fst ij \<in> {0, 1, 2}" "snd ij \<in> {0, 1, 2}" using assms by (auto simp: set_offsets)
  then show ?thesis by (intro mult_nonneg_nonneg weights_nonneg)
qed

lemma contribution_parts:
  "g0 (p2g_contribution A p ij) = vx (p2g_w p ! nat (fst ij)) * vy (p2g_w p ! nat (snd ij)) *
      g0 (vadd3 (Vector3_of (vscale particle_mass (p_v p)) particle_mass)
            (Vector3_of (mvmul A (vscale dx (vsub (Vec (real_of_int (fst ij)) (real_of_int (snd ij)))
               (p2g_fx p)))) 0))"
  "g1 (p2g_contribution A p ij) = vx (p2g_w p ! nat (fst ij)) * vy (p2g_w p ! nat (snd ij)) *
      g1 (vadd3 (Vector3_of (vscale particle_mass (p_v p)) particle_mass)
            (Vector3_of (mvmul A (vscale dx (vsub (Vec (real_of_int (fst ij)) (real_of_int (snd ij)))
               (p2g_fx p)))) 0))"
  "g2 (p2g_contribution A p ij) = vx (p2g_w p ! nat (fst ij)) * vy (p2g_w p ! nat (snd ij))"
  by (simp_all add: p2g_contribution_def Let_def vscale3_def vadd3_def Vector3_of_def
        particle_mass_def)

lemma mass_ok_add:
  assumes "0 \<le> g2 a \<and> (g2 a = 0 \<longrightarrow> g0 a = 0 \<and> g1 a = 0)" and ij: "ij \<in> set offsets"
  shows "0 \<le> g2 (vadd3 a (p2g_contribution A p ij)) \<and>
         (g2 (vadd3 a (p2g_contribution A p ij)) = 0 \<longrightarrow>
            g0 (vadd3 a (p2g_contribution A p ij)) = 0 \<and>
            g1 (vadd3 a (p2g_contribution A p ij)) = 0)"
proof -
  define w where "w = vx (p2g_w p ! nat (fst ij)) * vy (p2g_w p ! nat (snd ij))"
  have w: "0 \<le> w" unfolding w_def by (rule product_weight_nonneg[OF ij])
  show ?thesis
    using assms(1) w
    unfolding vadd3_def Vector3.sel contribution_parts w_def[symmetric]
    by (auto simp: add_nonneg_eq_0_iff)
qed

lemma mass_ok_particle:
  assumes "mass_ok g" and "p2g_particle pd dt p g = Inr g'"
  shows "mass_ok g'"
proof -
  let ?b = "p2g_base_coord p"
  have g': "g' = (\<lambda>ab. if ab \<in> set (stencil ?b)
                      then vadd3 (g ab) (p2g_contribution (p2g_affine pd dt p) p
                              (fst ab - ix ?b, snd ab - iy ?b))
                      else g ab)"
    using assms(2) by (auto simp: p2g_particle_eq split: if_splits)
  show ?thesis
    unfolding mass_ok_def
  proof
    fix ab
    show "0 \<le> g2 (g' ab) \<and> (g2 (g' ab) = 0 \<longrightarrow> g0 (g' ab) = 0 \<and> g1 (g' ab) = 0)"
    proof (cases "ab \<in> set (stencil ?b)")
      case True
      then have m: "(fst ab - ix ?b, snd ab - iy ?b) \<in> set offsets"
        by (simp add: in_stencil_iff2)
      have old: "0 \<le> g2 (g ab) \<and> (g2 (g ab) = 0 \<longrightarrow> g0 (g ab) = 0 \<and> g1 (g ab) = 0)"
        using assms(1) unfolding mass_ok_def by blast
      have eq: "g' ab = vadd3 (g ab) (p2g_contribution (p2g_affine pd dt p) p
                              (fst ab - ix ?b, snd ab - iy ?b))"
        unfolding g' using True by simp
      show ?thesis unfolding eq by (rule mass_ok_add[OF old m])
    next
      case False
      have old: "0 \<le> g2 (g ab) \<and> (g2 (g ab) = 0 \<longrightarrow> g0 (g ab) = 0 \<and> g1 (g ab) = 0)"
        using assms(1) unfolding mass_ok_def by blast
      have eq: "g' ab = g ab" unfolding g' using False by simp
      show ?thesis unfolding eq by (rule old)
    qed
  qed
qed

lemma mass_ok_p2g:
  "mass_ok g \<Longrightarrow> p2g pd dt ps g = Inr g' \<Longrightarrow> mass_ok g'"
proof (induction ps arbitrary: g)
  case Nil
  then show ?case by (simp add: p2g_def)
next
  case (Cons p ps)
  from Cons.prems(2) obtain g1 where g1: "p2g_particle pd dt p g = Inr g1"
    and rest: "p2g pd dt ps g1 = Inr g'"
    by (auto simp: p2g_def split: sum.splits)
  show ?case by (rule Cons.IH[OF mass_ok_particle[OF Cons.prems(1) g1] rest])
qed

lemma mass_ok_zero: "mass_ok zero_grid"
  by (simp add: mass_ok_def zero_grid_def)

lemma inside_iff: "inside p \<longleftrightarrow> stencil_ok (p2g_base_coord p)"
  by (simp only: inside_def stencil_ok_range)

lemma solved_walls:
  assumes "mass_ok ga"
  shows "walls (grid_solve dt ga)"
  unfolding walls_def
proof (intro allI impI)
  fix i j assume ing: "in_grid i j"
  have m: "0 \<le> g2 (ga (i, j)) \<and> (g2 (ga (i, j)) = 0 \<longrightarrow> g0 (ga (i, j)) = 0 \<and> g1 (ga (i, j)) = 0)"
    using assms unfolding mass_ok_def by blast
  have gs: "grid_solve dt ga (i, j) = node_solve dt i j (ga (i, j))"
    using ing by (simp add: grid_solve_apply)
  have lo: "real_of_int k / real_of_int n < 0.05 \<longleftrightarrow> k \<le> 3" for k
    by (simp add: n_def) linarith
  have hi: "real_of_int k / real_of_int n > 1 - 0.05 \<longleftrightarrow> 77 \<le> k" for k
    by (simp add: n_def) linarith
  show "(i \<le> 3 \<or> 77 \<le> i \<or> 77 \<le> j \<longrightarrow>
          g0 (grid_solve dt ga (i, j)) = 0 \<and> g1 (grid_solve dt ga (i, j)) = 0) \<and>
        (j \<le> 3 \<longrightarrow> 0 \<le> g1 (grid_solve dt ga (i, j)))"
  proof (cases "0 < g2 (ga (i, j))")
    case True
    then show ?thesis
      unfolding gs node_solve_def Let_def lo hi by simp
  next
    case False
    then have z: "g2 (ga (i, j)) = 0" using m by simp
    then show ?thesis unfolding gs using m by (simp add: node_solve_def)
  qed
qed

lemma wsum_abs_bound:
  fixes w f :: "'a \<Rightarrow> real"
  shows "(\<forall>x \<in> set xs. 0 \<le> w x \<and> \<bar>f x\<bar> \<le> B) \<Longrightarrow>
         \<bar>\<Sum>x\<leftarrow>xs. w x * f x\<bar> \<le> B * (\<Sum>x\<leftarrow>xs. w x)"
proof (induction xs)
  case Nil
  then show ?case by simp
next
  case (Cons x xs)
  have 1: "\<bar>w x * f x\<bar> \<le> w x * B"
    using Cons.prems by (simp add: abs_mult mult_left_mono)
  have 2: "\<bar>\<Sum>x\<leftarrow>xs. w x * f x\<bar> \<le> B * (\<Sum>x\<leftarrow>xs. w x)"
    using Cons by simp
  have "\<bar>w x * f x + (\<Sum>x\<leftarrow>xs. w x * f x)\<bar> \<le> \<bar>w x * f x\<bar> + \<bar>\<Sum>x\<leftarrow>xs. w x * f x\<bar>"
    by (rule abs_triangle_ineq)
  also have "\<dots> \<le> w x * B + B * (\<Sum>x\<leftarrow>xs. w x)" using 1 2 by linarith
  finally show ?case by (simp add: algebra_simps)
qed

lemma wsum_nonneg:
  fixes w f :: "'a \<Rightarrow> real"
  shows "(\<forall>x \<in> set xs. 0 \<le> w x \<and> 0 \<le> f x) \<Longrightarrow> 0 \<le> (\<Sum>x\<leftarrow>xs. w x * f x)"
  by (induction xs) simp_all

lemma wsum_zero:
  fixes w f :: "'a \<Rightarrow> real"
  shows "(\<forall>x \<in> set xs. f x = 0) \<Longrightarrow> (\<Sum>x\<leftarrow>xs. w x * f x) = 0"
  by (induction xs) simp_all

lemma g2p_weight_nonneg: "ij \<in> set offsets \<Longrightarrow> 0 \<le> g2p_weight p ij"
  unfolding g2p_weight_def w_same by (rule product_weight_nonneg)

lemma g2p_weight_sum: "(\<Sum>ij\<leftarrow>offsets. g2p_weight p ij) = 1"
  unfolding g2p_weight_def w_same by (rule product_weights_sum)

lemma stencil_in_grid:
  assumes "stencil_ok b" "ij \<in> set offsets"
  shows "in_grid (ix b + fst ij) (iy b + snd ij)"
  using assms offsets_in_grid[of b] by blast

lemma base_ix: "ix (g2p_base_coord p) = \<lfloor>80 * vx (p_x p) - 1 / 2\<rfloor>"
  and base_iy: "iy (g2p_base_coord p) = \<lfloor>80 * vy (p_x p) - 1 / 2\<rfloor>"
  by (simp_all add: g2p_base_coord_def cast_int_def vsub_def vscale_def Vec1_def inv_dx_eq)

lemma floor_low: "\<lfloor>80 * x - 1 / 2\<rfloor> \<le> 1 \<longleftrightarrow> x < 1 / 32" for x :: real
proof -
  have "\<lfloor>80 * x - 1 / 2\<rfloor> \<le> 1 \<longleftrightarrow> \<lfloor>80 * x - 1 / 2\<rfloor> < 2" by linarith
  also have "\<dots> \<longleftrightarrow> 80 * x - 1 / 2 < 2" by (simp add: floor_less_iff)
  also have "\<dots> \<longleftrightarrow> x < 1 / 32" by linarith
  finally show ?thesis .
qed

lemma floor_high: "77 \<le> \<lfloor>80 * x - 1 / 2\<rfloor> \<longleftrightarrow> 155 / 160 \<le> x" for x :: real
proof -
  have "77 \<le> \<lfloor>80 * x - 1 / 2\<rfloor> \<longleftrightarrow> 77 \<le> 80 * x - 1 / 2" by (simp add: le_floor_iff)
  also have "\<dots> \<longleftrightarrow> 155 / 160 \<le> x" by linarith
  finally show ?thesis .
qed

lemma inside_num:
  "inside p \<longleftrightarrow> 1 / 160 \<le> vx (p_x p) \<and> vx (p_x p) < 159 / 160 \<and>
                  1 / 160 \<le> vy (p_x p) \<and> vy (p_x p) < 159 / 160"
  by (simp add: inside_def dx_eq n_def)

lemma g2p_position:
  assumes "g2p_particle svd dt g p = Inr p'"
  shows "vx (p_x p') = vx (p_x p) + dt * (\<Sum>ij\<leftarrow>offsets. g2p_weight p ij *
            g0 (g (ix (g2p_base_coord p) + fst ij, iy (g2p_base_coord p) + snd ij)))"
    and "vy (p_x p') = vy (p_x p) + dt * (\<Sum>ij\<leftarrow>offsets. g2p_weight p ij *
            g1 (g (ix (g2p_base_coord p) + fst ij, iy (g2p_base_coord p) + snd ij)))"
proof -
  have p': "p' = g2p_deform svd dt
      (p\<lparr>p_C := snd (fold (gather_step g p) offsets (Vec1 0, Mat1 0)),
         p_v := fst (fold (gather_step g p) offsets (Vec1 0, Mat1 0)),
         p_x := vadd (p_x p) (vscale dt (fst (fold (gather_step g p) offsets (Vec1 0, Mat1 0))))\<rparr>)"
    using assms by (auto simp: g2p_particle_eq Let_def split: if_splits)
  show "vx (p_x p') = vx (p_x p) + dt * (\<Sum>ij\<leftarrow>offsets. g2p_weight p ij *
            g0 (g (ix (g2p_base_coord p) + fst ij, iy (g2p_base_coord p) + snd ij)))"
    unfolding p' g2p_deform_frame by (simp add: vadd_def vscale_def fold_gather_v Vec1_def)
  show "vy (p_x p') = vy (p_x p) + dt * (\<Sum>ij\<leftarrow>offsets. g2p_weight p ij *
            g1 (g (ix (g2p_base_coord p) + fst ij, iy (g2p_base_coord p) + snd ij)))"
    unfolding p' g2p_deform_frame by (simp add: vadd_def vscale_def fold_gather_v Vec1_def)
qed

lemma g2p_inside:
  assumes dt: "0 \<le> dt" and ins: "inside p" and w: "walls g" and sl: "slow_grid dt g"
    and r: "g2p_particle svd dt g p = Inr p'"
  shows "inside p'"
proof -
  define bx where "bx = ix (g2p_base_coord p)"
  define bj where "bj = iy (g2p_base_coord p)"
  define X where "X = vx (p_x p)"
  define Y where "Y = vy (p_x p)"
  define Vx where "Vx = (\<Sum>ij\<leftarrow>offsets. g2p_weight p ij * g0 (g (bx + fst ij, bj + snd ij)))"
  define Vy where "Vy = (\<Sum>ij\<leftarrow>offsets. g2p_weight p ij * g1 (g (bx + fst ij, bj + snd ij)))"
  have ok: "stencil_ok (g2p_base_coord p)"
    using ins by (simp add: inside_iff base_coord_same)
  have ing: "in_grid (bx + fst ij) (bj + snd ij)" if "ij \<in> set offsets" for ij
    unfolding bx_def bj_def by (rule stencil_in_grid[OF ok that])
  have off: "fst ij \<in> {0, 1, 2} \<and> snd ij \<in> {0, 1, 2}" if "ij \<in> set offsets" for ij
    using that by (auto simp: set_offsets)
  have bxX: "bx = \<lfloor>80 * X - 1 / 2\<rfloor>" and bjY: "bj = \<lfloor>80 * Y - 1 / 2\<rfloor>"
    by (simp_all add: bx_def bj_def X_def Y_def base_ix base_iy)
  have XY: "1 / 160 \<le> X" "X < 159 / 160" "1 / 160 \<le> Y" "Y < 159 / 160"
    using ins by (simp_all add: inside_num X_def Y_def)
  have pos: "vx (p_x p') = X + dt * Vx" "vy (p_x p') = Y + dt * Vy"
    using g2p_position[OF r] by (simp_all add: X_def Y_def Vx_def Vy_def bx_def bj_def)
  \<comment> \<open>the displacement is bounded\<close>
  have dVx: "dt * Vx = (\<Sum>ij\<leftarrow>offsets. g2p_weight p ij * (dt * g0 (g (bx + fst ij, bj + snd ij))))"
    unfolding Vx_def by (simp add: sum_list_const_mult mult.left_commute)
  have dVy: "dt * Vy = (\<Sum>ij\<leftarrow>offsets. g2p_weight p ij * (dt * g1 (g (bx + fst ij, bj + snd ij))))"
    unfolding Vy_def by (simp add: sum_list_const_mult mult.left_commute)
  have slx: "\<bar>dt * g0 (g (bx + fst ij, bj + snd ij))\<bar> \<le> 0.025"
    and sly: "\<bar>dt * g1 (g (bx + fst ij, bj + snd ij))\<bar> \<le> 0.025"
    if "ij \<in> set offsets" for ij
    using sl ing[OF that] unfolding slow_grid_def by blast+
  have bx_bound: "\<bar>dt * Vx\<bar> \<le> 0.025"
    unfolding dVx
    using wsum_abs_bound[of offsets "g2p_weight p"
        "\<lambda>ij. dt * g0 (g (bx + fst ij, bj + snd ij))" "0.025"]
      g2p_weight_nonneg[of _ p] slx
    by (simp add: g2p_weight_sum)
  have by_bound: "\<bar>dt * Vy\<bar> \<le> 0.025"
    unfolding dVy
    using wsum_abs_bound[of offsets "g2p_weight p"
        "\<lambda>ij. dt * g1 (g (bx + fst ij, bj + snd ij))" "0.025"]
      g2p_weight_nonneg[of _ p] sly
    by (simp add: g2p_weight_sum)
  \<comment> \<open>a stencil inside a sticky band does not move the particle\<close>
  have stuck: "Vx = 0 \<and> Vy = 0" if band: "bx \<le> 1 \<or> 77 \<le> bx \<or> 77 \<le> bj"
  proof -
    have z: "g0 (g (bx + fst ij, bj + snd ij)) = 0 \<and> g1 (g (bx + fst ij, bj + snd ij)) = 0"
      if m: "ij \<in> set offsets" for ij
    proof -
      have "bx + fst ij \<le> 3 \<or> 77 \<le> bx + fst ij \<or> 77 \<le> bj + snd ij"
        using band off[OF m] by auto
      then show ?thesis using w ing[OF m] unfolding walls_def by blast
    qed
    show ?thesis
      unfolding Vx_def Vy_def using z by (simp add: wsum_zero)
  qed
  \<comment> \<open>a stencil inside the bottom band does not move the particle down\<close>
  have floor: "0 \<le> Vy" if band: "bj \<le> 1"
  proof -
    have "0 \<le> g1 (g (bx + fst ij, bj + snd ij))" if m: "ij \<in> set offsets" for ij
    proof -
      have "bj + snd ij \<le> 3" using band off[OF m] by auto
      then show ?thesis using w ing[OF m] unfolding walls_def by blast
    qed
    then show ?thesis
      unfolding Vy_def using g2p_weight_nonneg[of _ p] by (intro wsum_nonneg) simp
  qed
  have lowx: "bx \<le> 1 \<longleftrightarrow> X < 1 / 32" and highx: "77 \<le> bx \<longleftrightarrow> 155 / 160 \<le> X"
    and lowy: "bj \<le> 1 \<longleftrightarrow> Y < 1 / 32" and highy: "77 \<le> bj \<longleftrightarrow> 155 / 160 \<le> Y"
    unfolding bxX bjY by (rule floor_low floor_high)+
  show ?thesis
  proof (cases "bx \<le> 1 \<or> 77 \<le> bx \<or> 77 \<le> bj")
    case True
    from stuck[OF True] show ?thesis
      unfolding inside_num pos using XY by simp
  next
    case False
    then have X2: "1 / 32 \<le> X" "X < 155 / 160" and Y2: "Y < 155 / 160"
      using lowx highx highy by auto
    have x': "1 / 160 \<le> X + dt * Vx" "X + dt * Vx < 159 / 160"
      using X2 bx_bound by (simp_all add: abs_le_iff)
    have yhi: "Y + dt * Vy < 159 / 160"
      using Y2 by_bound by (simp add: abs_le_iff; linarith?)
    have ylo: "1 / 160 \<le> Y + dt * Vy"
    proof (cases "bj \<le> 1")
      case True
      have "0 \<le> dt * Vy" using dt floor[OF True] by simp
      then show ?thesis using XY by linarith
    next
      case False
      then have "1 / 32 \<le> Y" using lowy by auto
      then show ?thesis using by_bound by (simp add: abs_le_iff; linarith?)
    qed
    show ?thesis unfolding inside_num pos using x' yhi ylo by simp
  qed
qed

lemma advance_inside:
  assumes dt: "0 \<le> dt" and ins: "\<forall>p \<in> set (particles s). inside p"
    and a: "advance pd svd dt s = Inr s'" and sl: "slow_grid dt (grid s')"
  shows "\<forall>p' \<in> set (particles s'). inside p'"
proof
  fix p' assume p': "p' \<in> set (particles s')"
  from a obtain ga where ga: "p2g pd dt (particles s) zero_grid = Inr ga"
    and gs: "grid s' = grid_solve dt ga"
    and g2p: "g2p svd dt (grid_solve dt ga) (particles s) = Inr (particles s')"
    by (rule advance_Inr)
  have w: "walls (grid s')"
    unfolding gs by (rule solved_walls[OF mass_ok_p2g[OF mass_ok_zero ga]])
  from mapE_Inr[OF g2p[unfolded g2p_def]]
  have len: "length (particles s') = length (particles s)"
    and each: "\<And>i. i < length (particles s) \<Longrightarrow>
       g2p_particle svd dt (grid_solve dt ga) (particles s ! i) = Inr (particles s' ! i)"
    by auto
  from p' obtain i where i: "i < length (particles s')" "p' = particles s' ! i"
    by (auto simp: in_set_conv_nth)
  have r: "g2p_particle svd dt (grid s') (particles s ! i) = Inr p'"
    using each[of i] i len by (simp add: gs)
  have "inside (particles s ! i)" using ins i len by simp
  from g2p_inside[OF dt this w sl r] show "inside p'" .
qed

lemma steps_inside:
  "0 \<le> dt \<Longrightarrow> \<forall>p \<in> set (particles s). inside p \<Longrightarrow> slow_run k pd svd dt s \<Longrightarrow>
   \<exists>s'. steps k pd svd dt s = Inr s' \<and> (\<forall>p \<in> set (particles s'). inside p)"
proof (induction k arbitrary: s)
  case 0
  then show ?case by simp
next
  case (Suc k)
  have "\<forall>p \<in> set (particles s). stencil_ok (p2g_base_coord p)"
    using Suc.prems(2) by (simp add: inside_iff)
  then obtain s1 where a: "advance pd svd dt s = Inr s1"
    using advance_Inr_iff[of pd svd dt s] by blast
  from Suc.prems(3) a have sl: "slow_grid dt (grid s1)" and rest: "slow_run k pd svd dt s1"
    by simp_all
  have "\<forall>p \<in> set (particles s1). inside p"
    by (rule advance_inside[OF Suc.prems(1,2) a sl])
  from Suc.IH[OF Suc.prems(1) this rest] show ?case using a by simp
qed

lemma rest_slow_grid:
  assumes a: "advance (\<lambda>M. (Mat1 1, M)) svd (1 / 10000)
      \<lparr>particles = [new_Particle (Vec (1 / 2) (1 / 2)) c ty (Vec 0 0)], grid = g\<rparr> = Inr s'"
  shows "slow_grid (1 / 10000) (grid s')"
  unfolding slow_grid_def
proof (intro allI impI)
  fix i j assume "in_grid i j"
  let ?p = "new_Particle (Vec (1 / 2) (1 / 2)) c ty (Vec 0 0)"
  let ?pd = "\<lambda>M. (Mat1 1, M)"
  have px: "p_x ?p = Vec (1 / 2) (1 / 2)" and pv: "p_v ?p = Vec 0 0"
    by (simp_all add: new_Particle_def)
  have A: "p2g_affine ?pd (1 / 10000) ?p = Mat 0 0 0 0"
    using rest_affine[where pd="?pd" and dt="1 / 10000" and x="Vec (1 / 2) (1 / 2)" and c=c
        and ty=ty and v="Vec 0 0"]
    by (simp add: Mat1_def)
  from a obtain ga where ga: "p2g ?pd (1 / 10000) [?p] zero_grid = Inr ga"
    and gs: "grid s' = grid_solve (1 / 10000) ga"
    by (rule advance_Inr) simp
  show "\<bar>1 / 10000 * g0 (grid s' (i, j))\<bar> \<le> 0.025 \<and> \<bar>1 / 10000 * g1 (grid s' (i, j))\<bar> \<le> 0.025"
  proof (cases "(i, j) \<in> set (stencil (Vector2i 39 39))")
    case True
    then have m: "i - 39 \<in> {0, 1, 2}" "j - 39 \<in> {0, 1, 2}"
      by (auto simp: in_stencil_iff set_offsets)
    have "grid_solve (1 / 10000) ga (39 + (i - 39), 39 + (j - 39)) =
            Vector3 0 (- 200 * (1 / 10000)) 1"
      using mid_node[OF px m A ga] by (simp add: pv)
    then show ?thesis unfolding gs by simp
  next
    case False
    then have "\<forall>p \<in> set (particles \<lparr>particles = [?p], grid = g\<rparr>).
                 (i, j) \<notin> set (stencil (p2g_base_coord p))"
      by (simp add: mid_base[OF px])
    from untouched_node_zero[OF a this] show ?thesis by simp
  qed
qed

lemma round_even_cases: "round_even r = \<lfloor>r\<rfloor> \<or> round_even r = \<lfloor>r\<rfloor> + 1"
  by (simp add: round_even_def Let_def)

lemma round_even_le: "r \<le> real_of_int k \<Longrightarrow> round_even r \<le> k"
proof -
  assume a: "r \<le> real_of_int k"
  show ?thesis
  proof (cases "r = real_of_int k")
    case True
    then show ?thesis by (simp add: round_even_def)
  next
    case False
    then have "r < real_of_int k" using a by simp
    then have "\<lfloor>r\<rfloor> < k" by (simp add: floor_less_iff)
    then show ?thesis using round_even_cases[of r] by linarith
  qed
qed

lemma round_even_ge: "real_of_int k \<le> r \<Longrightarrow> k \<le> round_even r"
proof -
  assume "real_of_int k \<le> r"
  then have "k \<le> \<lfloor>r\<rfloor>" by (simp add: le_floor_iff)
  then show ?thesis using round_even_cases[of r] by linarith
qed

lemma ulp32_pos: "0 < ulp32 y"
  by (simp add: ulp32_def)

lemma exponent32_le:
  assumes "y \<noteq> 0" "\<bar>y\<bar> < 2 powr real_of_int (e + 1)" "- 126 \<le> e"
  shows "exponent32 y \<le> e"
proof -
  have "log 2 \<bar>y\<bar> < real_of_int (e + 1)"
    using assms(1,2) by (subst log_less_iff) simp_all
  then have "\<lfloor>log 2 \<bar>y\<bar>\<rfloor> < e + 1" by (simp only: floor_less_iff)
  then show ?thesis using assms(3) by (simp add: exponent32_def)
qed

lemma exponent32_ge:
  assumes "2 powr real_of_int e \<le> \<bar>y\<bar>"
  shows "e \<le> exponent32 y"
proof -
  have "0 < \<bar>y\<bar>" using assms by (smt (verit) powr_gt_zero)
  then have "real_of_int e \<le> log 2 \<bar>y\<bar>"
    using assms by (subst le_log_iff) simp_all
  then have "e \<le> \<lfloor>log 2 \<bar>y\<bar>\<rfloor>" by (simp only: le_floor_iff)
  then show ?thesis by (simp add: exponent32_def)
qed

lemma exponent32_eq:
  assumes "2 powr real_of_int e \<le> \<bar>y\<bar>" "\<bar>y\<bar> < 2 powr real_of_int (e + 1)" "- 126 \<le> e"
  shows "exponent32 y = e"
proof -
  have "y \<noteq> 0" using assms(1) by (smt (verit) powr_gt_zero)
  from exponent32_le[OF this assms(2,3)] exponent32_ge[OF assms(1)] show ?thesis by simp
qed

lemma rep_ratio:
  assumes "exponent32 y \<le> j + 23"
  shows "\<exists>K. real_of_int m * 2 powr real_of_int j = real_of_int K * ulp32 y"
proof -
  have "2 powr real_of_int j / ulp32 y = 2 powr (real_of_int j - real_of_int (exponent32 y - 23))"
    unfolding ulp32_def by (simp add: powr_diff)
  also have "real_of_int j - real_of_int (exponent32 y - 23) = real (nat (j + 23 - exponent32 y))"
    using assms by simp
  also have "2 powr real (nat (j + 23 - exponent32 y)) = 2 ^ nat (j + 23 - exponent32 y)"
    by (simp add: powr_realpow)
  finally have "2 powr real_of_int j = 2 ^ nat (j + 23 - exponent32 y) * ulp32 y"
    using ulp32_pos[of y] by (simp add: field_simps)
  then have "real_of_int m * 2 powr real_of_int j =
             real_of_int (m * 2 ^ nat (j + 23 - exponent32 y)) * ulp32 y"
    by simp
  then show ?thesis ..
qed

lemma fl32_le_rep:
  assumes "y \<noteq> 0" "y \<le> real_of_int m * 2 powr real_of_int j" "exponent32 y \<le> j + 23"
  shows "fl32 y \<le> real_of_int m * 2 powr real_of_int j"
proof -
  from rep_ratio[OF assms(3), of m] obtain K where
    K: "real_of_int m * 2 powr real_of_int j = real_of_int K * ulp32 y" ..
  have "y / ulp32 y \<le> real_of_int K"
    using assms(2) ulp32_pos[of y] unfolding K by (simp add: pos_divide_le_eq)
  then have "round_even (y / ulp32 y) \<le> K" by (rule round_even_le)
  then have "real_of_int (round_even (y / ulp32 y)) \<le> real_of_int K" by simp
  then have "real_of_int (round_even (y / ulp32 y)) * ulp32 y \<le> real_of_int K * ulp32 y"
    using ulp32_pos[of y] by (simp add: mult_right_mono)
  then show ?thesis unfolding K using assms(1) by (simp add: fl32_def)
qed

lemma fl32_ge_rep:
  assumes "y \<noteq> 0" "real_of_int m * 2 powr real_of_int j \<le> y" "exponent32 y \<le> j + 23"
  shows "real_of_int m * 2 powr real_of_int j \<le> fl32 y"
proof -
  from rep_ratio[OF assms(3), of m] obtain K where
    K: "real_of_int m * 2 powr real_of_int j = real_of_int K * ulp32 y" ..
  have "real_of_int K \<le> y / ulp32 y"
    using assms(2) ulp32_pos[of y] unfolding K by (simp add: pos_le_divide_eq)
  then have "K \<le> round_even (y / ulp32 y)" by (rule round_even_ge)
  then have "real_of_int K \<le> real_of_int (round_even (y / ulp32 y))" by simp
  then have "real_of_int K * ulp32 y \<le> real_of_int (round_even (y / ulp32 y)) * ulp32 y"
    using ulp32_pos[of y] by (simp add: mult_right_mono)
  then show ?thesis unfolding K using assms(1) by (simp add: fl32_def)
qed

lemma fl32_rep:
  assumes "y = real_of_int m * 2 powr real_of_int j" "exponent32 y \<le> j + 23"
  shows "fl32 y = y"
proof (cases "y = 0")
  case True
  then show ?thesis by (simp add: fl32_def)
next
  case False
  from fl32_le_rep[OF False _ assms(2), of m] fl32_ge_rep[OF False _ assms(2), of m] assms(1)
  show ?thesis by simp
qed

lemma small_exponent: "y \<noteq> 0 \<Longrightarrow> \<bar>y\<bar> < 128 \<Longrightarrow> exponent32 y \<le> 6"
  by (rule exponent32_le) simp_all

lemma pow2_neg: "2 powr (- real k) = 1 / 2 ^ k"
  by (simp add: powr_minus powr_realpow divide_inverse)

lemma pow2_pos: "2 powr (real k) = 2 ^ k"
  by (simp add: powr_realpow)

lemma fl32_eval:
  assumes "exponent32 y = e" "y \<noteq> 0"
  shows "fl32 y = real_of_int (round_even (y / 2 powr real_of_int (e - 23))) *
                    2 powr real_of_int (e - 23)"
  using assms by (simp add: fl32_def ulp32_def)

lemma dx_f32_eq: "dx_f32 = 13421773 / 1073741824"
proof -
  have e: "exponent32 (1 / 80) = - 7"
    by (rule exponent32_eq) (simp_all add: powr_neg_numeral)
  have p: "2 powr real_of_int (- 7 - 23) = 1 / 1073741824"
    by (simp add: powr_neg_numeral)
  show ?thesis
    unfolding dx_f32_def n_def
    using fl32_eval[OF e] unfolding p
    by (simp add: round_even_def Let_def)
qed

lemma inv_dx_f32_eq: "inv_dx_f32 = 80"
proof -
  have e: "exponent32 (1073741824 / 13421773) = 6"
    by (rule exponent32_eq) (simp_all add: powr_neg_numeral)
  have p: "2 powr real_of_int (6 - 23) = 1 / 131072"
    by (simp add: powr_neg_numeral)
  show ?thesis
    unfolding inv_dx_f32_def dx_f32_eq
    using fl32_eval[OF e] unfolding p
    by (simp add: round_even_def Let_def)
qed


lemma fl32_le_num:
  assumes "y \<le> M" "M = real_of_int m * 2 powr real_of_int j" "\<bar>y\<bar> < 128" "- 17 \<le> j" "0 \<le> M"
  shows "fl32 y \<le> M"
proof (cases "y = 0")
  case True
  then show ?thesis using assms(5) by (simp add: fl32_def)
next
  case False
  have "exponent32 y \<le> j + 23" using small_exponent[OF False assms(3)] assms(4) by linarith
  from fl32_le_rep[OF False assms(1)[unfolded assms(2)] this] show ?thesis
    unfolding assms(2) .
qed

lemma fl32_ge_num:
  assumes "M \<le> y" "M = real_of_int m * 2 powr real_of_int j" "\<bar>y\<bar> < 128" "- 17 \<le> j" "M \<le> 0 \<or> y \<noteq> 0"
  shows "M \<le> fl32 y"
proof (cases "y = 0")
  case True
  then show ?thesis using assms(5) by (simp add: fl32_def)
next
  case False
  have "exponent32 y \<le> j + 23" using small_exponent[OF False assms(3)] assms(4) by linarith
  from fl32_ge_rep[OF False assms(1)[unfolded assms(2)] this] show ?thesis
    unfolding assms(2) .
qed

lemma rounded_in_range:
  fixes x :: real
  assumes lo: "1 / 160 \<le> x" and hi: "80 * x \<le> 10420223 / 131072"
  shows "0 \<le> fl32 (fl32 (80 * x) - 1 / 2)" and "fl32 (fl32 (80 * x) - 1 / 2) \<le> 10354687 / 131072"
proof -
  have y: "1 / 2 \<le> 80 * x" "\<bar>80 * x\<bar> < 128" using lo hi by simp_all
  have a: "fl32 (80 * x) \<le> 10420223 / 131072"
    by (rule fl32_le_num[OF hi, of 10420223 "- 17"]) (use y in \<open>simp_all add: powr_neg_numeral\<close>)
  have b: "1 / 2 \<le> fl32 (80 * x)"
    by (rule fl32_ge_num[OF y(1), of 1 "- 1"]) (use y in \<open>auto simp: powr_neg_numeral\<close>)
  have z: "0 \<le> fl32 (80 * x) - 1 / 2" "fl32 (80 * x) - 1 / 2 \<le> 10354687 / 131072"
    "\<bar>fl32 (80 * x) - 1 / 2\<bar> < 128"
    using a b by simp_all
  show "0 \<le> fl32 (fl32 (80 * x) - 1 / 2)"
    by (rule fl32_ge_num[OF z(1), of 0 0]) (use z in simp_all)
  show "fl32 (fl32 (80 * x) - 1 / 2) \<le> 10354687 / 131072"
    by (rule fl32_le_num[OF z(2), of 10354687 "- 17"]) (use z in \<open>simp_all add: powr_neg_numeral\<close>)
qed

lemma rounded_above_range:
  fixes x :: real
  assumes lo: "159 / 160 \<le> x" and hi: "x \<le> 1"
  shows "79 \<le> fl32 (fl32 (80 * x) - 1 / 2)"
proof -
  have y: "159 / 2 \<le> 80 * x" "80 * x \<le> 80" "\<bar>80 * x\<bar> < 128" using lo hi by simp_all
  have a: "159 / 2 \<le> fl32 (80 * x)"
    by (rule fl32_ge_num[OF y(1), of 159 "- 1"]) (use y in \<open>auto simp: powr_neg_numeral\<close>)
  have b: "fl32 (80 * x) \<le> 80"
    by (rule fl32_le_num[OF y(2), of 80 0]) (use y in simp_all)
  have z: "79 \<le> fl32 (80 * x) - 1 / 2" "\<bar>fl32 (80 * x) - 1 / 2\<bar> < 128"
    using a b by simp_all
  show ?thesis
    by (rule fl32_ge_num[OF z(1), of 79 0]) (use z in auto)
qed

lemma fl32_near_boundary: "fl32 (80 * (8336179 / 8388608)) = 159 / 2"
proof -
  have e: "exponent32 (80 * (8336179 / 8388608)) = 6"
    by (rule exponent32_eq) simp_all
  have p: "2 powr real_of_int (6 - 23) = 1 / 131072"
    by (simp add: powr_neg_numeral)
  show ?thesis
    using fl32_eval[OF e] unfolding p by (simp add: round_even_def Let_def)
qed

lemma fl32_small_int:
  assumes "y = real_of_int m / 2" "\<bar>y\<bar> < 128"
  shows "fl32 y = y"
proof -
  have r: "y = real_of_int m * 2 powr real_of_int (- 1)"
    using assms(1) by (simp add: powr_neg_numeral powr_minus)
  show ?thesis
  proof (cases "y = 0")
    case True
    then show ?thesis by (simp add: fl32_def)
  next
    case False
    have "exponent32 y \<le> - 1 + 23" using small_exponent[OF False assms(2)] by linarith
    from fl32_rep[OF r this] show ?thesis .
  qed
qed

lemma near_boundary_base:
  "fl32 (fl32 (80 * (8336179 / 8388608)) - 1 / 2) = 79"
  unfolding fl32_near_boundary
  using fl32_small_int[of 79 158] by simp

lemma centre_base_f32:
  "fl32 (fl32 (80 * (1 / 2)) - 1 / 2) = 79 / 2"
  using fl32_small_int[of 40 80] fl32_small_int[of "79 / 2" 79] by simp


lemma cast_arg_f32_sel:
  "vx (p2g_cast_arg_f32 p) = fl32 (fl32 (80 * vx (p_x p)) - 1 / 2)"
  "vy (p2g_cast_arg_f32 p) = fl32 (fl32 (80 * vy (p_x p)) - 1 / 2)"
  by (simp_all add: p2g_cast_arg_f32_def vsub_f32_def vscale_f32_def Vec1_def inv_dx_f32_eq)

lemma base_f32_sel:
  "ix (p2g_base_coord_f32 p) = \<lfloor>fl32 (fl32 (80 * vx (p_x p)) - 1 / 2)\<rfloor>"
  "iy (p2g_base_coord_f32 p) = \<lfloor>fl32 (fl32 (80 * vy (p_x p)) - 1 / 2)\<rfloor>"
  by (simp_all add: p2g_base_coord_f32_def cast_int_def cast_arg_f32_sel)

lemma base_f32_same: "g2p_base_coord_f32 p = p2g_base_coord_f32 p"
  by (simp add: g2p_base_coord_f32_def p2g_base_coord_f32_def g2p_cast_arg_f32_def
        p2g_cast_arg_f32_def)

lemma floor_in_range:
  fixes r :: real
  assumes "0 \<le> r" "r \<le> 10354687 / 131072"
  shows "0 \<le> \<lfloor>r\<rfloor>" "\<lfloor>r\<rfloor> + 2 \<le> 80"
proof -
  show "0 \<le> \<lfloor>r\<rfloor>" using assms(1) by simp
  have "r < 79" using assms(2) by simp
  then have "\<lfloor>r\<rfloor> < 79" by (simp add: floor_less_iff)
  then show "\<lfloor>r\<rfloor> + 2 \<le> 80" by simp
qed

lemma floor_above_range:
  fixes r :: real
  assumes "79 \<le> r"
  shows "\<not> \<lfloor>r\<rfloor> + 2 \<le> 80"
proof -
  have "79 \<le> \<lfloor>r\<rfloor>" using assms by (simp add: le_floor_iff)
  then show ?thesis by simp
qed

lemma near_boundary_representable: "fl32 (8336179 / 8388608) = 8336179 / 8388608"
proof -
  have r: "(8336179 / 8388608 :: real) = real_of_int 8336179 * 2 powr real_of_int (- 23)"
    by (simp add: powr_neg_numeral)
  have "exponent32 (8336179 / 8388608) \<le> 6"
    by (rule small_exponent) simp_all
  then have "exponent32 (8336179 / 8388608) \<le> - 1"
    using exponent32_le[of "8336179 / 8388608" "- 1"] by simp
  then have "exponent32 (8336179 / 8388608) \<le> - 23 + 23" by simp
  from fl32_rep[OF r this] show ?thesis .
qed

section \<open>The claims\<close>

text \<open>
  Where a statement needs concrete decompositions, it takes those of a diagonal matrix with
  positive entries: rotation and orthogonal factors equal to the identity, that is
  \<open>\<lambda>M. (Mat1 1, M)\<close> for \<open>polar_decomp\<close> and \<open>\<lambda>M. (Mat1 1, M, Mat1 1)\<close> for \<open>svd\<close>.
\<close>

text \<open>
  C1. One elastic particle at \<open>(0.5, 0.5)\<close>, at rest, with \<open>F\<close> the identity and
  \<open>Jp = 1\<close>: one step with \<open>dt = 1e-4\<close> leaves it with velocity \<open>(0, -0.02)\<close>, that is
  \<open>-200 * 1e-4\<close> downwards, and lowers its \<open>y\<close> by \<open>dt * 0.02 = 2e-6\<close>, exactly so over the
  reals and whatever the grid held before; the stress term is zero as soon as the polar
  decomposition of the identity has the identity as its rotation.
\<close>

theorem concrete_scenario:
  "(case advance polar_decomp svd (1 / 10000)
          \<lparr>particles = [new_Particle (Vec (1 / 2) (1 / 2)) c 0 (Vec 0 0)], grid = g\<rparr> of
      Inl e \<Rightarrow> False
    | Inr s' \<Rightarrow>
        map p_v (particles s') = [Vec 0 (- 0.02)] \<and>
        map p_x (particles s') = [Vec (1 / 2) (1 / 2 - 0.000002)]) \<and>
   (fst (polar_decomp (Mat1 1)) = Mat1 1 \<longrightarrow>
      p2g_affine polar_decomp (1 / 10000) (new_Particle (Vec (1 / 2) (1 / 2)) c 0 (Vec 0 0)) =
        Mat1 0)"
proof -
  let ?p = "new_Particle (Vec (1 / 2) (1 / 2)) c 0 (Vec 0 0)"
  have px: "p_x ?p = Vec (1 / 2) (1 / 2)" by (simp add: new_Particle_def)
  have pv: "p_v ?p = Vec 0 0" by (simp add: new_Particle_def)
  show ?thesis
    using mid_advance[OF px, where pd=polar_decomp and svd=svd and dt="1 / 10000" and g=g]
      rest_affine[where pd=polar_decomp and dt="1 / 10000" and x="Vec (1 / 2) (1 / 2)" and c=c and ty=0
        and v="Vec 0 0"]
    unfolding pv by (simp split: sum.splits)
qed

theorem concrete_scenario_witness:
  "fst ((\<lambda>M. (Mat1 1, M)) (Mat1 1)) = Mat1 1 \<and>
   p2g_affine (\<lambda>M. (Mat1 1, M)) (1 / 10000) (new_Particle (Vec (1 / 2) (1 / 2)) 7 0 (Vec 0 0)) =
     Mat1 0 \<and>
   (case advance (\<lambda>M. (Mat1 1, M)) (\<lambda>M. (Mat1 1, M, Mat1 1)) (1 / 10000)
          \<lparr>particles = [new_Particle (Vec (1 / 2) (1 / 2)) 7 0 (Vec 0 0)], grid = zero_grid\<rparr> of
      Inl e \<Rightarrow> False
    | Inr s' \<Rightarrow>
        map p_v (particles s') = [Vec 0 (- 0.02)] \<and>
        map p_x (particles s') = [Vec (1 / 2) (1 / 2 - 0.000002)])"
  using concrete_scenario[where polar_decomp="\<lambda>M. (Mat1 1, M)" and svd="\<lambda>M. (Mat1 1, M, Mat1 1)"
      and c=7 and g=zero_grid]
  by simp

text \<open>
  C2. For every particle the three kernel weights add up to 1 on each axis, so the nine
  product weights add up to 1, and the mass the particle scatters onto its nine nodes is
  \<open>particle_mass\<close>: the sum of the masses of its nine contributions, which is also the
  gain of mass of the grid over the nine nodes of its stencil.
\<close>

theorem kernel_partition_of_unity:
  "vx (p2g_w p ! 0) + vx (p2g_w p ! 1) + vx (p2g_w p ! 2) = 1 \<and>
   vy (p2g_w p ! 0) + vy (p2g_w p ! 1) + vy (p2g_w p ! 2) = 1 \<and>
   (\<Sum>ij\<leftarrow>offsets. vx (p2g_w p ! nat (fst ij)) * vy (p2g_w p ! nat (snd ij))) = 1 \<and>
   (\<Sum>ij\<leftarrow>offsets. g2 (p2g_contribution A p ij)) = particle_mass \<and>
   (p2g_particle polar_decomp dt p g = Inr g' \<longrightarrow>
      (\<Sum>ab\<leftarrow>stencil (p2g_base_coord p). g2 (g' ab) - g2 (g ab)) = particle_mass)"
  using p2g_w_sum[of p] product_weights_sum[of p] scattered_mass[of A p]
    stencil_mass_gain[of polar_decomp dt p g g']
  by simp

theorem kernel_partition_of_unity_witness:
  "case p2g_particle (\<lambda>M. (Mat1 1, M)) (1 / 10000) (new_Particle (Vec (1 / 2) (1 / 2)) 7 0 (Vec1 0))
          zero_grid of
      Inl e \<Rightarrow> False
    | Inr g' \<Rightarrow> (\<Sum>ab\<leftarrow>stencil (Vector2i 39 39). g2 (g' ab)) = 1"
proof -
  let ?p = "new_Particle (Vec (1 / 2) (1 / 2)) 7 0 (Vec1 0)"
  have "\<exists>g'. p2g_particle (\<lambda>M. (Mat1 1, M)) (1 / 10000) ?p zero_grid = Inr g'"
    using centre_stencil_ok[of 7 0 "Vec1 0"] by (simp add: p2g_particle_eq)
  then obtain g' where g': "p2g_particle (\<lambda>M. (Mat1 1, M)) (1 / 10000) ?p zero_grid = Inr g'" ..
  show ?thesis
    using kernel_partition_of_unity[of ?p "Mat1 0" "\<lambda>M. (Mat1 1, M)" "1 / 10000" zero_grid g'] g'
    unfolding g' by (simp add: centre_base zero_grid_def particle_mass_def)
qed

text \<open>
  C3. A liquid particle (\<open>type = 2\<close>) keeps its deformation gradient: after any number
  of steps that run to their end, \<open>F\<close> of the particle at each index is what it was.
\<close>

theorem liquid_F_unchanged:
  "steps k polar_decomp svd dt s = Inr s' \<Longrightarrow> i < length (particles s) \<Longrightarrow>
   p_type (particles s ! i) = 2 \<Longrightarrow>
   i < length (particles s') \<and> p_F (particles s' ! i) = p_F (particles s ! i)"
  using steps_frame[of k polar_decomp svd dt s s'] by simp

theorem liquid_F_unchanged_witness:
  "case steps (Suc 0) (\<lambda>M. (Mat1 1, M)) (\<lambda>M. (Mat1 1, M, Mat1 1)) (1 / 10000)
          \<lparr>particles = [new_Particle (Vec (1 / 2) (1 / 2)) 7 2 (Vec1 0)], grid = zero_grid\<rparr> of
     Inl e \<Rightarrow> False
   | Inr s' \<Rightarrow> p_F (particles s' ! 0) = Mat1 1"
proof -
  let ?s = "\<lparr>particles = [new_Particle (Vec (1 / 2) (1 / 2)) 7 2 (Vec1 0)], grid = zero_grid\<rparr>"
  obtain s' where a: "advance (\<lambda>M. (Mat1 1, M)) (\<lambda>M. (Mat1 1, M, Mat1 1)) (1 / 10000) ?s = Inr s'"
    using centre_advance by blast
  then have st: "steps (Suc 0) (\<lambda>M. (Mat1 1, M)) (\<lambda>M. (Mat1 1, M, Mat1 1)) (1 / 10000) ?s = Inr s'"
    by simp
  have "p_F (particles s' ! 0) = p_F (particles ?s ! 0)"
    using liquid_F_unchanged[OF st, of 0] by (simp add: new_Particle_def)
  then show ?thesis
    unfolding st by (simp add: new_Particle_def)
qed

text \<open>
  C4. With an \<open>svd\<close> that returns orthogonal factors and a diagonal middle factor, every
  snow particle (\<open>type = 1\<close>) has, after each step, \<open>Jp\<close> in \<open>[0.6, 20]\<close> and all singular
  values of \<open>F\<close> in \<open>[1 - 0.025, 1 + 0.0075]\<close>; the state before the step is arbitrary, so
  this holds after every later step as well.
\<close>

theorem snow_clamp_bounds:
  "svd_ok svd \<Longrightarrow> steps (Suc k) polar_decomp svd dt s = Inr s' \<Longrightarrow>
   p \<in> set (particles s') \<Longrightarrow> p_type p = 1 \<Longrightarrow>
   0.6 \<le> p_Jp p \<and> p_Jp p \<le> 20.0 \<and>
   (\<exists>sv. is_singular_value (p_F p) sv) \<and>
   (\<forall>sv. is_singular_value (p_F p) sv \<longrightarrow> 1 - 0.025 \<le> sv \<and> sv \<le> 1 + 0.0075)"
proof -
  assume ok: "svd_ok svd" and st: "steps (Suc k) polar_decomp svd dt s = Inr s'"
    and p: "p \<in> set (particles s')" and ty: "p_type p = 1"
  from steps_Suc_end[OF st] obtain s1 where a: "advance polar_decomp svd dt s1 = Inr s'"
    by blast
  from advance_member[OF a p] obtain g q where q: "g2p_particle svd dt g q = Inr p"
    by blast
  then obtain q' where p_eq: "p = g2p_deform svd dt q'"
    by (auto simp: g2p_particle_eq Let_def split: if_splits)
  have "p_type q' = 1" using ty unfolding p_eq by (simp add: g2p_deform_frame)
  from snow_deform[OF ok this, of dt] show ?thesis unfolding p_eq by simp
qed

theorem snow_clamp_bounds_witness:
  "svd_ok (\<lambda>M. (Mat1 1, Mat (m00 M) 0 0 (m11 M), Mat1 1)) \<and>
   (case steps (Suc 0) (\<lambda>M. (Mat1 1, M)) (\<lambda>M. (Mat1 1, Mat (m00 M) 0 0 (m11 M), Mat1 1))
           (1 / 10000)
           \<lparr>particles = [new_Particle (Vec (1 / 2) (1 / 2)) 7 1 (Vec 0 0)], grid = zero_grid\<rparr> of
      Inl e \<Rightarrow> False
    | Inr s' \<Rightarrow>
        list_all (\<lambda>p. p_type p = 1 \<and> 0.6 \<le> p_Jp p \<and> p_Jp p \<le> 20.0 \<and>
                    (\<exists>sv. is_singular_value (p_F p) sv) \<and>
                    (\<forall>sv. is_singular_value (p_F p) sv \<longrightarrow>
                          1 - 0.025 \<le> sv \<and> sv \<le> 1 + 0.0075))
          (particles s'))"
proof -
  let ?pd = "\<lambda>M. (Mat1 1, M)" and ?svd = "\<lambda>M. (Mat1 1, Mat (m00 M) 0 0 (m11 M), Mat1 1)"
  let ?s = "\<lparr>particles = [new_Particle (Vec (1 / 2) (1 / 2)) 7 1 (Vec 0 0)], grid = zero_grid\<rparr>"
  obtain s' where a: "advance ?pd ?svd (1 / 10000) ?s = Inr s'"
    using centre_advance by blast
  then have st: "steps (Suc 0) ?pd ?svd (1 / 10000) ?s = Inr s'" by simp
  from steps_frame[OF st]
  have len: "length (particles s') = 1" and ty: "p_type (particles s' ! 0) = 1"
    by (simp_all add: new_Particle_def)
  have "p_type p = 1 \<and> 0.6 \<le> p_Jp p \<and> p_Jp p \<le> 20.0 \<and>
        (\<exists>sv. is_singular_value (p_F p) sv) \<and>
        (\<forall>sv. is_singular_value (p_F p) sv \<longrightarrow> 1 - 0.025 \<le> sv \<and> sv \<le> 1 + 0.0075)"
    if "p \<in> set (particles s')" for p
  proof -
    from that len have "p = particles s' ! 0" by (auto simp: in_set_conv_nth)
    then have "p_type p = 1" using ty by simp
    then show ?thesis using snow_clamp_bounds[OF diag_svd_ok st that] by blast
  qed
  then have "list_all (\<lambda>p. p_type p = 1 \<and> 0.6 \<le> p_Jp p \<and> p_Jp p \<le> 20.0 \<and>
                    (\<exists>sv. is_singular_value (p_F p) sv) \<and>
                    (\<forall>sv. is_singular_value (p_F p) sv \<longrightarrow>
                          1 - 0.025 \<le> sv \<and> sv \<le> 1 + 0.0075)) (particles s')"
    unfolding list_all_iff by blast
  then show ?thesis
    using diag_svd_ok unfolding st by simp
qed

text \<open>
  C5. The grid solve changes a node only when its mass is positive: a node whose mass is not
  positive is returned as it is, so nothing is divided by zero, and a node that no
  particle's stencil touches is zero after the step, whatever the grid held before.
\<close>

theorem zero_mass_node_skipped:
  "(\<not> 0 < g2 a \<longrightarrow> node_solve dt i j a = a) \<and>
   (advance polar_decomp svd dt s = Inr s' \<longrightarrow>
    (\<forall>p \<in> set (particles s). (i, j) \<notin> set (stencil (p2g_base_coord p))) \<longrightarrow>
    grid s' (i, j) = Vector3 0 0 0)"
  using node_solve_skip[of a dt i j] untouched_node_zero[of polar_decomp svd dt s s' i j]
  by blast

theorem zero_mass_node_skipped_witness:
  "\<not> 0 < g2 (Vector3 5 6 0) \<and> node_solve (1 / 10000) 10 10 (Vector3 5 6 0) = Vector3 5 6 0 \<and>
   (case advance (\<lambda>M. (Mat1 1, M)) (\<lambda>M. (Mat1 1, M, Mat1 1)) (1 / 10000)
          \<lparr>particles = [new_Particle (Vec (1 / 2) (1 / 2)) 7 0 (Vec1 0)], grid = (\<lambda>ij. Vector3 1 2 3)\<rparr> of
      Inl e \<Rightarrow> False
    | Inr s' \<Rightarrow> grid s' (10, 10) = Vector3 0 0 0)"
proof -
  let ?s = "\<lparr>particles = [new_Particle (Vec (1 / 2) (1 / 2)) 7 0 (Vec1 0)], grid = (\<lambda>ij. Vector3 1 2 3)\<rparr>"
  obtain s' where a: "advance (\<lambda>M. (Mat1 1, M)) (\<lambda>M. (Mat1 1, M, Mat1 1)) (1 / 10000) ?s = Inr s'"
    using centre_advance by blast
  have out: "\<forall>p \<in> set (particles ?s). (10, 10) \<notin> set (stencil (p2g_base_coord p))"
    by (simp add: centre_base in_stencil_iff set_offsets)
  show ?thesis
    using zero_mass_node_skipped[of "Vector3 5 6 0" "1 / 10000" 10 10 "\<lambda>M. (Mat1 1, M)"
        "\<lambda>M. (Mat1 1, M, Mat1 1)" ?s s'] a out
    by simp
qed


text \<open>
  C7. The step is deterministic in the particle store: two states with the same particles,
  whatever their grid arrays hold, give the same particles (or the same failure) after any
  number of steps, under the same constants and library routines.
\<close>

theorem steps_deterministic:
  "particles s1 = particles s2 \<Longrightarrow>
   map_sum id particles (steps k polar_decomp svd dt s1) =
   map_sum id particles (steps k polar_decomp svd dt s2)"
  by (cases k) (simp_all add: advance_particles_only[of s1 s2])

theorem steps_deterministic_witness:
  "particles \<lparr>particles = [new_Particle (Vec (1 / 2) (1 / 2)) 7 0 (Vec1 0)], grid = zero_grid\<rparr> =
   particles \<lparr>particles = [new_Particle (Vec (1 / 2) (1 / 2)) 7 0 (Vec1 0)],
              grid = (\<lambda>ij. Vector3 1 2 3)\<rparr> \<and>
   map_sum id particles
     (steps 3 (\<lambda>M. (Mat1 1, M)) (\<lambda>M. (Mat1 1, M, Mat1 1)) (1 / 10000)
        \<lparr>particles = [new_Particle (Vec (1 / 2) (1 / 2)) 7 0 (Vec1 0)], grid = zero_grid\<rparr>) =
   map_sum id particles
     (steps 3 (\<lambda>M. (Mat1 1, M)) (\<lambda>M. (Mat1 1, M, Mat1 1)) (1 / 10000)
        \<lparr>particles = [new_Particle (Vec (1 / 2) (1 / 2)) 7 0 (Vec1 0)],
         grid = (\<lambda>ij. Vector3 1 2 3)\<rparr>)"
  using steps_deterministic[of
      "\<lparr>particles = [new_Particle (Vec (1 / 2) (1 / 2)) 7 0 (Vec1 0)], grid = zero_grid\<rparr>"
      "\<lparr>particles = [new_Particle (Vec (1 / 2) (1 / 2)) 7 0 (Vec1 0)], grid = (\<lambda>ij. Vector3 1 2 3)\<rparr>"
      3 "\<lambda>M. (Mat1 1, M)" "\<lambda>M. (Mat1 1, M, Mat1 1)" "1 / 10000"]
  by simp

text \<open>
  C8, as stated, fails: nothing bounds the velocity a particle starts with. A particle at the
  centre of the domain with velocity \<open>(-100000, 0)\<close> is at \<open>x = -9.5\<close> after one step.
\<close>

theorem containment_counterexample:
  "0.05 < vx (p_x (new_Particle (Vec (1 / 2) (1 / 2)) 7 0 (Vec (- 100000) 0))) \<and>
   vx (p_x (new_Particle (Vec (1 / 2) (1 / 2)) 7 0 (Vec (- 100000) 0))) < 1 - 0.05 \<and>
   0.05 < vy (p_x (new_Particle (Vec (1 / 2) (1 / 2)) 7 0 (Vec (- 100000) 0))) \<and>
   vy (p_x (new_Particle (Vec (1 / 2) (1 / 2)) 7 0 (Vec (- 100000) 0))) < 1 - 0.05 \<and>
   map_sum id (map p_x \<circ> particles)
     (advance (\<lambda>M. (Mat1 1, M)) (\<lambda>M. (Mat1 1, M, Mat1 1)) (1 / 10000)
        \<lparr>particles = [new_Particle (Vec (1 / 2) (1 / 2)) 7 0 (Vec (- 100000) 0)],
          grid = zero_grid\<rparr>) =
     Inr [Vec (- 19 / 2) (1 / 2 - 0.000002)] \<and>
   vx (Vec (- 19 / 2) (1 / 2 - 0.000002)) < 0"
proof -
  let ?p = "new_Particle (Vec (1 / 2) (1 / 2)) 7 0 (Vec (- 100000) 0)"
  have px: "p_x ?p = Vec (1 / 2) (1 / 2)" by (simp add: new_Particle_def)
  have pv: "p_v ?p = Vec (- 100000) 0" by (simp add: new_Particle_def)
  show ?thesis
    using mid_advance[OF px, where pd="\<lambda>M. (Mat1 1, M)" and svd="\<lambda>M. (Mat1 1, M, Mat1 1)"
        and dt="1 / 10000" and g=zero_grid]
    unfolding pv by (auto simp: px split: sum.splits)
qed

text \<open>
  C8, amended. Let the step be non-negative and every particle start strictly inside
  \<open>[0.05, 0.95] \<times> [0.05, 0.95]\<close>. As long as, in every step, the velocity components \<open>v\<close> of
  all grid nodes after the grid solve satisfy \<open>|dt * v| \<le> 0.025\<close>, every step stays inside the
  grid array and no particle leaves \<open>[0, 1] \<times> [0, 1]\<close>: a stencil that lies in the left,
  right or top band gathers zero velocity, and one in the bottom band a non-negative
  vertical velocity.
\<close>

theorem containment_while_slow:
  "0 \<le> dt \<Longrightarrow>
   \<forall>p \<in> set (particles s). 0.05 < vx (p_x p) \<and> vx (p_x p) < 1 - 0.05 \<and>
                             0.05 < vy (p_x p) \<and> vy (p_x p) < 1 - 0.05 \<Longrightarrow>
   slow_run k polar_decomp svd dt s \<Longrightarrow>
   \<exists>s'. steps k polar_decomp svd dt s = Inr s' \<and>
        (\<forall>p \<in> set (particles s'). 0 \<le> vx (p_x p) \<and> vx (p_x p) \<le> 1 \<and>
                                  0 \<le> vy (p_x p) \<and> vy (p_x p) \<le> 1)"
proof -
  assume dt: "0 \<le> dt"
    and start: "\<forall>p \<in> set (particles s). 0.05 < vx (p_x p) \<and> vx (p_x p) < 1 - 0.05 \<and>
                             0.05 < vy (p_x p) \<and> vy (p_x p) < 1 - 0.05"
    and slow: "slow_run k polar_decomp svd dt s"
  have "\<forall>p \<in> set (particles s). inside p"
    using start by (auto simp: inside_num)
  from steps_inside[OF dt this slow] obtain s' where
    st: "steps k polar_decomp svd dt s = Inr s'" and ins: "\<forall>p \<in> set (particles s'). inside p"
    by blast
  have "\<forall>p \<in> set (particles s'). 0 \<le> vx (p_x p) \<and> vx (p_x p) \<le> 1 \<and>
                                  0 \<le> vy (p_x p) \<and> vy (p_x p) \<le> 1"
    using ins by (auto simp: inside_num)
  then show ?thesis using st by blast
qed

theorem containment_while_slow_witness:
  "(0::real) \<le> 1 / 10000 \<and>
   slow_run (Suc 0) (\<lambda>M. (Mat1 1, M)) (\<lambda>M. (Mat1 1, M, Mat1 1)) (1 / 10000)
     \<lparr>particles = [new_Particle (Vec (1 / 2) (1 / 2)) 7 0 (Vec 0 0)], grid = zero_grid\<rparr> \<and>
   (\<exists>s'. steps (Suc 0) (\<lambda>M. (Mat1 1, M)) (\<lambda>M. (Mat1 1, M, Mat1 1)) (1 / 10000)
           \<lparr>particles = [new_Particle (Vec (1 / 2) (1 / 2)) 7 0 (Vec 0 0)], grid = zero_grid\<rparr> =
         Inr s' \<and>
        (\<forall>p \<in> set (particles s'). 0 \<le> vx (p_x p) \<and> vx (p_x p) \<le> 1 \<and>
                                  0 \<le> vy (p_x p) \<and> vy (p_x p) \<le> 1))"
proof -
  let ?pd = "\<lambda>M::Mat. (Mat1 1, M)" and ?svd = "\<lambda>M::Mat. (Mat1 1, M, Mat1 1)"
  let ?s = "\<lparr>particles = [new_Particle (Vec (1 / 2) (1 / 2)) 7 0 (Vec 0 0)], grid = zero_grid\<rparr>"
  have slow: "slow_run (Suc 0) ?pd ?svd (1 / 10000) ?s"
    using rest_slow_grid[where svd="?svd" and c=7 and ty=0 and g=zero_grid]
    by (simp split: sum.splits)
  have start: "\<forall>p \<in> set (particles ?s). 0.05 < vx (p_x p) \<and> vx (p_x p) < 1 - 0.05 \<and>
                             0.05 < vy (p_x p) \<and> vy (p_x p) < 1 - 0.05"
    by (simp add: new_Particle_def)
  have dt: "(0::real) \<le> 1 / 10000" by simp
  from containment_while_slow[OF dt start slow] slow dt show ?thesis by blast
qed

text \<open>
  C9. The step keeps the size and the order of the particle store, and the colour and the
  material type of every particle: after any number of steps the lists of colours and of
  types, read in index order, are the initial ones.
\<close>

theorem store_shape_colour_type_unchanged:
  "steps k polar_decomp svd dt s = Inr s' \<Longrightarrow>
   length (particles s') = length (particles s) \<and>
   map p_c (particles s') = map p_c (particles s) \<and>
   map p_type (particles s') = map p_type (particles s)"
  using steps_frame[of k polar_decomp svd dt s s']
  by (simp add: list_eq_iff_nth_eq)

theorem store_shape_colour_type_unchanged_witness:
  "case steps (Suc 0) (\<lambda>M. (Mat1 1, M)) (\<lambda>M. (Mat1 1, M, Mat1 1)) (1 / 10000)
          \<lparr>particles = [new_Particle (Vec (1 / 2) (1 / 2)) 7 0 (Vec1 0),
                        new_Particle (Vec (1 / 2) (1 / 2)) 9 1 (Vec1 0)], grid = zero_grid\<rparr> of
     Inl e \<Rightarrow> False
   | Inr s' \<Rightarrow> length (particles s') = 2 \<and> map p_c (particles s') = [7, 9] \<and>
       map p_type (particles s') = [0, 1]"
proof -
  let ?s = "\<lparr>particles = [new_Particle (Vec (1 / 2) (1 / 2)) 7 0 (Vec1 0),
                        new_Particle (Vec (1 / 2) (1 / 2)) 9 1 (Vec1 0)], grid = zero_grid\<rparr>"
  have "\<exists>s'. advance (\<lambda>M. (Mat1 1, M)) (\<lambda>M. (Mat1 1, M, Mat1 1)) (1 / 10000) ?s = Inr s'"
    unfolding advance_Inr_iff using centre_stencil_ok by simp
  then obtain s' where
    st: "steps (Suc 0) (\<lambda>M. (Mat1 1, M)) (\<lambda>M. (Mat1 1, M, Mat1 1)) (1 / 10000) ?s = Inr s'"
    by auto
  show ?thesis
    using store_shape_colour_type_unchanged[OF st] unfolding st
    by (simp add: new_Particle_def)
qed

text \<open>
  C10, as stated, fails: the range \<open>[0.5 * dx, (n - 0.5) * dx)\<close> is the range of exact
  arithmetic, and the code rounds \<open>p.x * inv_dx\<close>. The single-precision position
  \<open>x = 8336179 / 8388608\<close> is below \<open>(n - 0.5) * dx\<close>; the product \<open>80 * x\<close> rounds to \<open>79.5\<close>,
  the base cell is \<open>79\<close> and the stencil reaches row \<open>81\<close> of an array whose last row is \<open>80\<close>.
\<close>

theorem grid_access_boundary_counterexample:
  "fl32 (8336179 / 8388608) = 8336179 / 8388608 \<and>
   0.5 * dx \<le> vx (p_x (new_Particle (Vec (8336179 / 8388608) (1 / 2)) 7 0 (Vec 0 0))) \<and>
   vx (p_x (new_Particle (Vec (8336179 / 8388608) (1 / 2)) 7 0 (Vec 0 0)))
     < (real_of_int n - 0.5) * dx \<and>
   0.5 * dx \<le> vy (p_x (new_Particle (Vec (8336179 / 8388608) (1 / 2)) 7 0 (Vec 0 0))) \<and>
   vy (p_x (new_Particle (Vec (8336179 / 8388608) (1 / 2)) 7 0 (Vec 0 0)))
     < (real_of_int n - 0.5) * dx \<and>
   p2g_base_coord_f32 (new_Particle (Vec (8336179 / 8388608) (1 / 2)) 7 0 (Vec 0 0)) =
     Vector2i 79 39 \<and>
   g2p_base_coord_f32 (new_Particle (Vec (8336179 / 8388608) (1 / 2)) 7 0 (Vec 0 0)) =
     Vector2i 79 39 \<and>
   \<not> in_grid (79 + 2) (39 + 0)"
proof -
  let ?p = "new_Particle (Vec (8336179 / 8388608) (1 / 2)) 7 0 (Vec 0 0)"
  have px: "vx (p_x ?p) = 8336179 / 8388608" "vy (p_x ?p) = 1 / 2"
    by (simp_all add: new_Particle_def)
  have b: "p2g_base_coord_f32 ?p = Vector2i 79 39"
    by (rule Vector2i.expand)
       (simp only: base_f32_sel px near_boundary_base centre_base_f32, simp)
  show ?thesis
    unfolding base_f32_same b px near_boundary_representable
    by (simp add: dx_eq n_def in_grid_def)
qed

text \<open>
  C10, amended. With \<open>p.x * inv_dx - 0.5\<close> rounded as the code rounds it (\<open>inv_dx\<close> is
  exactly \<open>80\<close> in single precision too, and both transfers compute the same base cell),
  the nine grid accesses of a particle stay inside the array exactly when the computed base
  cell lies in \<open>[0, n - 2]\<close> on both axes. They do when both position components \<open>x\<close> satisfy
  \<open>0.5 * dx \<le> x\<close> and \<open>x * inv_dx \<le> n - 0.5 - 1 / 2 ^ 17\<close>, and then the cast is applied to
  non-negative values, where the floor and a truncation towards zero agree. They do not
  when a component lies in \<open>[(n - 0.5) * dx, 1]\<close>. Between the two bounds the rounding of
  \<open>x * inv_dx\<close> decides.
\<close>

theorem grid_access_in_bounds_rounded:
  "inv_dx_f32 = inv_dx \<and>
   g2p_base_coord_f32 p = p2g_base_coord_f32 p \<and>
   ((\<forall>ij \<in> set offsets. in_grid (ix (p2g_base_coord_f32 p) + fst ij)
                                 (iy (p2g_base_coord_f32 p) + snd ij)) \<longleftrightarrow>
      0 \<le> ix (p2g_base_coord_f32 p) \<and> ix (p2g_base_coord_f32 p) + 2 \<le> n \<and>
      0 \<le> iy (p2g_base_coord_f32 p) \<and> iy (p2g_base_coord_f32 p) + 2 \<le> n) \<and>
   (0.5 * dx \<le> vx (p_x p) \<and> vx (p_x p) * inv_dx \<le> real_of_int n - 0.5 - 1 / 2 ^ 17 \<and>
    0.5 * dx \<le> vy (p_x p) \<and> vy (p_x p) * inv_dx \<le> real_of_int n - 0.5 - 1 / 2 ^ 17 \<longrightarrow>
      0 \<le> vx (p2g_cast_arg_f32 p) \<and> 0 \<le> vy (p2g_cast_arg_f32 p) \<and>
      (\<forall>ij \<in> set offsets. in_grid (ix (p2g_base_coord_f32 p) + fst ij)
                                  (iy (p2g_base_coord_f32 p) + snd ij))) \<and>
   ((real_of_int n - 0.5) * dx \<le> vx (p_x p) \<and> vx (p_x p) \<le> 1 \<or>
    (real_of_int n - 0.5) * dx \<le> vy (p_x p) \<and> vy (p_x p) \<le> 1 \<longrightarrow>
      \<not> (\<forall>ij \<in> set offsets. in_grid (ix (p2g_base_coord_f32 p) + fst ij)
                                    (iy (p2g_base_coord_f32 p) + snd ij)))"
proof -
  let ?b = "p2g_base_coord_f32 p"
  let ?all = "\<forall>ij \<in> set offsets. in_grid (ix ?b + fst ij) (iy ?b + snd ij)"
  have ok: "?all \<longleftrightarrow> 0 \<le> ix ?b \<and> ix ?b + 2 \<le> n \<and> 0 \<le> iy ?b \<and> iy ?b + 2 \<le> n"
    unfolding offsets_in_grid stencil_ok_def ..
  have inb: "0 \<le> vx (p2g_cast_arg_f32 p) \<and> 0 \<le> vy (p2g_cast_arg_f32 p) \<and> ?all"
    if h: "0.5 * dx \<le> vx (p_x p)" "vx (p_x p) * inv_dx \<le> real_of_int n - 0.5 - 1 / 2 ^ 17"
          "0.5 * dx \<le> vy (p_x p)" "vy (p_x p) * inv_dx \<le> real_of_int n - 0.5 - 1 / 2 ^ 17"
  proof -
    have x: "1 / 160 \<le> vx (p_x p)" "80 * vx (p_x p) \<le> 10420223 / 131072"
      and y: "1 / 160 \<le> vy (p_x p)" "80 * vy (p_x p) \<le> 10420223 / 131072"
      using h by (simp_all add: dx_eq inv_dx_eq n_def)
    note rx = rounded_in_range[OF x] and ry = rounded_in_range[OF y]
    have "0 \<le> ix ?b \<and> ix ?b + 2 \<le> n \<and> 0 \<le> iy ?b \<and> iy ?b + 2 \<le> n"
      unfolding base_f32_sel n_def
      using floor_in_range[OF rx] floor_in_range[OF ry] by simp
    then have ?all using ok by blast
    moreover have "0 \<le> vx (p2g_cast_arg_f32 p) \<and> 0 \<le> vy (p2g_cast_arg_f32 p)"
      unfolding cast_arg_f32_sel using rx(1) ry(1) by simp
    ultimately show ?thesis by blast
  qed
  have oob: "\<not> ?all"
    if h: "(real_of_int n - 0.5) * dx \<le> vx (p_x p) \<and> vx (p_x p) \<le> 1 \<or>
           (real_of_int n - 0.5) * dx \<le> vy (p_x p) \<and> vy (p_x p) \<le> 1"
  proof -
    from h consider (x) "159 / 160 \<le> vx (p_x p)" "vx (p_x p) \<le> 1"
      | (y) "159 / 160 \<le> vy (p_x p)" "vy (p_x p) \<le> 1"
      by (auto simp: dx_eq n_def)
    then show ?thesis
    proof cases
      case x
      from floor_above_range[OF rounded_above_range[OF x]]
      have "\<not> ix ?b + 2 \<le> n" unfolding base_f32_sel n_def .
      then show ?thesis using ok by blast
    next
      case y
      from floor_above_range[OF rounded_above_range[OF y]]
      have "\<not> iy ?b + 2 \<le> n" unfolding base_f32_sel n_def .
      then show ?thesis using ok by blast
    qed
  qed
  show ?thesis
    using ok inb oob by (simp only: inv_dx_f32_eq inv_dx_eq base_f32_same) blast
qed

theorem grid_access_in_bounds_rounded_witness:
  "0.5 * dx \<le> vx (p_x (new_Particle (Vec (1 / 2) (1 / 2)) 7 0 (Vec 0 0))) \<and>
   vx (p_x (new_Particle (Vec (1 / 2) (1 / 2)) 7 0 (Vec 0 0))) * inv_dx
     \<le> real_of_int n - 0.5 - 1 / 2 ^ 17 \<and>
   0.5 * dx \<le> vy (p_x (new_Particle (Vec (1 / 2) (1 / 2)) 7 0 (Vec 0 0))) \<and>
   vy (p_x (new_Particle (Vec (1 / 2) (1 / 2)) 7 0 (Vec 0 0))) * inv_dx
     \<le> real_of_int n - 0.5 - 1 / 2 ^ 17 \<and>
   stencil_ok (p2g_base_coord_f32 (new_Particle (Vec (1 / 2) (1 / 2)) 7 0 (Vec 0 0))) \<and>
   (real_of_int n - 0.5) * dx \<le> vx (p_x (new_Particle (Vec 1 (1 / 2)) 7 0 (Vec 0 0))) \<and>
   vx (p_x (new_Particle (Vec 1 (1 / 2)) 7 0 (Vec 0 0))) \<le> 1 \<and>
   \<not> stencil_ok (p2g_base_coord_f32 (new_Particle (Vec 1 (1 / 2)) 7 0 (Vec 0 0)))"
proof -
  let ?P1 = "new_Particle (Vec (1 / 2) (1 / 2)) 7 0 (Vec 0 0)"
  let ?P2 = "new_Particle (Vec 1 (1 / 2)) 7 0 (Vec 0 0)"
  have P1: "vx (p_x ?P1) = 1 / 2" "vy (p_x ?P1) = 1 / 2"
    and P2: "vx (p_x ?P2) = 1" "vy (p_x ?P2) = 1 / 2"
    by (simp_all add: new_Particle_def)
  have h1: "0.5 * dx \<le> vx (p_x ?P1) \<and> vx (p_x ?P1) * inv_dx \<le> real_of_int n - 0.5 - 1 / 2 ^ 17 \<and>
            0.5 * dx \<le> vy (p_x ?P1) \<and> vy (p_x ?P1) * inv_dx \<le> real_of_int n - 0.5 - 1 / 2 ^ 17"
    unfolding P1 by (simp add: dx_eq inv_dx_eq n_def)
  have h2: "(real_of_int n - 0.5) * dx \<le> vx (p_x ?P2) \<and> vx (p_x ?P2) \<le> 1"
    unfolding P2 by (simp add: dx_eq n_def)
  from grid_access_in_bounds_rounded[where p="?P1"] h1
  have "\<forall>ij \<in> set offsets. in_grid (ix (p2g_base_coord_f32 ?P1) + fst ij)
                                 (iy (p2g_base_coord_f32 ?P1) + snd ij)"
    by blast
  then have 1: "stencil_ok (p2g_base_coord_f32 ?P1)" by (simp add: offsets_in_grid)
  from grid_access_in_bounds_rounded[where p="?P2"] h2
  have "\<not> (\<forall>ij \<in> set offsets. in_grid (ix (p2g_base_coord_f32 ?P2) + fst ij)
                                 (iy (p2g_base_coord_f32 ?P2) + snd ij))"
    by blast
  then have 2: "\<not> stencil_ok (p2g_base_coord_f32 ?P2)" by (simp add: offsets_in_grid)
  show ?thesis using h1 h2 1 2 by blast
qed

end
